theory Spec2Isabelle
  imports Complex_Main
begin

section \<open>Values shared by the two scripts\<close>

text \<open>
  The repository holds two scripts, \<^verbatim>\<open>deleteAllUsers.ts\<close> (the global-user flow) and
  \<^verbatim>\<open>deleteOrgUsersIdentities.ts\<close> (the org-identity flow). Functions that exist in both
  files carry the suffix \<open>_all\<close> or \<open>_org\<close>.

  A JavaScript value of type \<^verbatim>\<open>string | undefined\<close> is a \<open>string option\<close>; it is truthy
  when it is present and not the empty string.
\<close>

definition truthy :: "string option \<Rightarrow> bool" where
  "truthy v = (case v of None \<Rightarrow> False | Some t \<Rightarrow> t \<noteq> [])"

text \<open>\<^verbatim>\<open>User\<close> and \<^verbatim>\<open>OrganizationUser\<close>: \<^verbatim>\<open>{ id: string; email?: string }\<close>.\<close>

record user =
  user_id :: string
  user_email :: "string option"

text \<open>\<^verbatim>\<open>Identity\<close>; the code treats \<^verbatim>\<open>id\<close> as possibly missing (\<^verbatim>\<open>Boolean(id)\<close>, \<^verbatim>\<open>?.id\<close>).\<close>

record identity =
  identity_id :: "string option"
  identity_type :: "string option"
  identity_email :: "string option"
  identity_name :: "string option"
  is_primary :: "bool option"

text \<open>
  \<^verbatim>\<open>GetUsersResponse\<close> and \<^verbatim>\<open>GetOrganizationUsersResponse\<close> differ only in the name of the
  list field (\<^verbatim>\<open>users\<close>, \<^verbatim>\<open>organization_users\<close>); both are read with \<^verbatim>\<open>?? []\<close>.
\<close>

record users_response =
  users :: "user list option"
  next_token :: "string option"

record identities_response =
  identities :: "identity list option"
  has_more :: "bool option"

text \<open>Every \<^verbatim>\<open>throw\<close> of the scripts, and a rejected \<^verbatim>\<open>fetch\<close>.\<close>

datatype error =
    TokenRequestFailed nat
  | MissingAccessToken
  | GetFailed nat
  | InvalidJson
  | DeleteFailed nat
  | FetchRejected

text \<open>
  An asynchronous function of the scripts is a state transformer that returns either the
  thrown error or the result, with the state it leaves behind.
\<close>

type_synonym ('a, 's) action = "'s \<Rightarrow> (error + 'a) \<times> 's"

definition orEmpty :: "'a list option \<Rightarrow> 'a list" where
  "orEmpty v = (case v of None \<Rightarrow> [] | Some xs \<Rightarrow> xs)"

section \<open>Pagination\<close>

text \<open>
  The loops are \<^verbatim>\<open>while (true)\<close>: nothing in the code bounds the number of pages, so each
  loop takes fuel and returns \<open>None\<close> when the fuel runs out before a \<^verbatim>\<open>break\<close> or a
  \<^verbatim>\<open>throw\<close>. The page fetcher is a parameter.
\<close>

subsection \<open>\<^verbatim>\<open>collectAllUsers\<close> (deleteAllUsers.ts)\<close>

fun collectAllUsers_loop ::
  "(string option \<Rightarrow> (users_response, 's) action) \<Rightarrow> nat \<Rightarrow> user list \<Rightarrow> string option \<Rightarrow> 's
     \<Rightarrow> ((error + user list) \<times> 's) option" where
  "collectAllUsers_loop getUsersPage 0 all nextToken s = None"
| "collectAllUsers_loop getUsersPage (Suc fuel) all nextToken s =
     (case getUsersPage nextToken s of
        (Inl e, s') \<Rightarrow> Some (Inl e, s')
      | (Inr data, s') \<Rightarrow>
          (let pageUsers = orEmpty (users data);
               all' = all @ pageUsers;
               prevToken = nextToken;
               nextToken' = next_token data
           in if \<not> truthy nextToken' \<or> nextToken' = prevToken \<or> length pageUsers = 0
              then Some (Inr all', s')
              else collectAllUsers_loop getUsersPage fuel all' nextToken' s'))"

definition collectAllUsers ::
  "(string option \<Rightarrow> (users_response, 's) action) \<Rightarrow> nat \<Rightarrow> 's
     \<Rightarrow> ((error + user list) \<times> 's) option" where
  "collectAllUsers getUsersPage fuel s = collectAllUsers_loop getUsersPage fuel [] None s"

subsection \<open>\<^verbatim>\<open>collectOrganizationUsers\<close> (deleteOrgUsersIdentities.ts)\<close>

fun collectOrganizationUsers_loop ::
  "(string option \<Rightarrow> (users_response, 's) action) \<Rightarrow> nat \<Rightarrow> user list \<Rightarrow> string option \<Rightarrow> 's
     \<Rightarrow> ((error + user list) \<times> 's) option" where
  "collectOrganizationUsers_loop getOrganizationUsersPage 0 acc nextToken s = None"
| "collectOrganizationUsers_loop getOrganizationUsersPage (Suc fuel) acc nextToken s =
     (case getOrganizationUsersPage nextToken s of
        (Inl e, s') \<Rightarrow> Some (Inl e, s')
      | (Inr data, s') \<Rightarrow>
          (let pageUsers = orEmpty (users data);
               acc' = acc @ pageUsers;
               newNextToken = next_token data
           in if length pageUsers = 0 then Some (Inr acc', s')
              else if \<not> truthy newNextToken then Some (Inr acc', s')
              else if newNextToken = nextToken then Some (Inr acc', s')
              else collectOrganizationUsers_loop getOrganizationUsersPage fuel acc' newNextToken s'))"

definition collectOrganizationUsers ::
  "(string option \<Rightarrow> (users_response, 's) action) \<Rightarrow> nat \<Rightarrow> 's
     \<Rightarrow> ((error + user list) \<times> 's) option" where
  "collectOrganizationUsers getOrganizationUsersPage fuel s =
     collectOrganizationUsers_loop getOrganizationUsersPage fuel [] None s"

subsection \<open>\<^verbatim>\<open>collectAllUserIdentities\<close> (deleteOrgUsersIdentities.ts)\<close>

text \<open>\<^verbatim>\<open>identities[identities.length - 1]?.id\<close>; the list is not empty where it is read.\<close>

definition lastIdentityId :: "identity list \<Rightarrow> string option" where
  "lastIdentityId xs = (case rev xs of [] \<Rightarrow> None | x # _ \<Rightarrow> identity_id x)"

fun collectAllUserIdentities_loop ::
  "(string \<Rightarrow> string option \<Rightarrow> (identities_response, 's) action) \<Rightarrow> nat \<Rightarrow> user
     \<Rightarrow> identity list \<Rightarrow> string option \<Rightarrow> 's \<Rightarrow> ((error + identity list) \<times> 's) option" where
  "collectAllUserIdentities_loop getUserIdentitiesPage 0 u allIdentities startingAfter s = None"
| "collectAllUserIdentities_loop getUserIdentitiesPage (Suc fuel) u allIdentities startingAfter s =
     (case getUserIdentitiesPage (user_id u) startingAfter s of
        (Inl e, s') \<Rightarrow> Some (Inl e, s')
      | (Inr data, s') \<Rightarrow>
          (let pageIdentities = orEmpty (identities data)
           in if length pageIdentities = 0 then Some (Inr allIdentities, s')
              else
                (let allIdentities' = allIdentities @ pageIdentities
                 in if has_more data \<noteq> Some True then Some (Inr allIdentities', s')
                    else
                      (let newStartingAfter = lastIdentityId pageIdentities
                       in if \<not> truthy newStartingAfter then Some (Inr allIdentities', s')
                          else if newStartingAfter = startingAfter then Some (Inr allIdentities', s')
                          else collectAllUserIdentities_loop getUserIdentitiesPage fuel u
                                 allIdentities' newStartingAfter s'))))"

definition collectAllUserIdentities ::
  "(string \<Rightarrow> string option \<Rightarrow> (identities_response, 's) action) \<Rightarrow> nat \<Rightarrow> user \<Rightarrow> 's
     \<Rightarrow> ((error + identity list) \<times> 's) option" where
  "collectAllUserIdentities getUserIdentitiesPage fuel u s =
     collectAllUserIdentities_loop getUserIdentitiesPage fuel u [] None s"

section \<open>Bulk deletion\<close>

subsection \<open>\<^verbatim>\<open>deleteAllUserIdentities\<close> (deleteOrgUsersIdentities.ts)\<close>

text \<open>
  A JavaScript \<^verbatim>\<open>Set\<close> iterates in insertion order and ignores the insertion of a member it
  already holds; \<^verbatim>\<open>Array.from(new Set(xs))\<close> therefore keeps the first occurrence of each
  element.
\<close>

definition Set_add :: "'a list \<Rightarrow> 'a \<Rightarrow> 'a list" where
  "Set_add seen x = (if x \<in> set seen then seen else seen @ [x])"

definition Array_from_Set :: "'a list \<Rightarrow> 'a list" where
  "Array_from_Set xs = foldl Set_add [] xs"

text \<open>\<^verbatim>\<open>identities.map((identity) => identity.id).filter((id): id is string => Boolean(id))\<close>\<close>

definition truthyIds :: "identity list \<Rightarrow> string list" where
  "truthyIds xs = List.map_filter (\<lambda>v. if truthy v then v else None) (map identity_id xs)"

definition uniqueIdentityIds :: "identity list \<Rightarrow> string list" where
  "uniqueIdentityIds xs = Array_from_Set (truthyIds xs)"

record bulk_result =
  deleted :: nat
  failed :: nat
  processed :: nat

text \<open>The \<^verbatim>\<open>for (const [index, identityId] of uniqueIdentityIds.entries())\<close> loop.\<close>

fun deleteIdentities_loop ::
  "(string \<Rightarrow> (unit, 's) action) \<Rightarrow> (nat \<times> string) list \<Rightarrow> bulk_result \<Rightarrow> 's \<Rightarrow> bulk_result \<times> 's" where
  "deleteIdentities_loop deleteIdentity [] res s = (res, s)"
| "deleteIdentities_loop deleteIdentity ((index, identityId) # rest) res s =
     (let res1 = res\<lparr>processed := index + 1\<rparr>
      in case deleteIdentity identityId s of
           (Inr _, s') \<Rightarrow>
              deleteIdentities_loop deleteIdentity rest (res1\<lparr>deleted := deleted res1 + 1\<rparr>) s'
         | (Inl e, s') \<Rightarrow>
              deleteIdentities_loop deleteIdentity rest (res1\<lparr>failed := failed res1 + 1\<rparr>) s')"

definition deleteAllUserIdentities ::
  "(string \<Rightarrow> string option \<Rightarrow> (identities_response, 's) action) \<Rightarrow> (string \<Rightarrow> (unit, 's) action)
     \<Rightarrow> nat \<Rightarrow> user \<Rightarrow> 's \<Rightarrow> ((error + bulk_result) \<times> 's) option" where
  "deleteAllUserIdentities getUserIdentitiesPage deleteIdentity fuel u s =
     (case collectAllUserIdentities getUserIdentitiesPage fuel u s of
        None \<Rightarrow> None
      | Some (Inl e, s1) \<Rightarrow> Some (Inl e, s1)
      | Some (Inr collected, s1) \<Rightarrow>
          if length collected = 0
          then Some (Inr \<lparr>deleted = 0, failed = 0, processed = 0\<rparr>, s1)
          else
            (case deleteIdentities_loop deleteIdentity (enumerate 0 (uniqueIdentityIds collected))
                    \<lparr>deleted = 0, failed = 0, processed = 0\<rparr> s1 of
               (res, s2) \<Rightarrow> Some (Inr res, s2)))"

subsection \<open>\<^verbatim>\<open>deleteAllUsers\<close> (deleteAllUsers.ts)\<close>

text \<open>
  The function returns nothing; the model returns the two counters of its last log line,
  \<^verbatim>\<open>success\<close> and \<^verbatim>\<open>failed\<close>.
\<close>

fun deleteAllUsers_loop ::
  "(string \<Rightarrow> (unit, 's) action) \<Rightarrow> user list \<Rightarrow> nat \<times> nat \<Rightarrow> 's \<Rightarrow> (nat \<times> nat) \<times> 's" where
  "deleteAllUsers_loop deleteUser [] counts s = (counts, s)"
| "deleteAllUsers_loop deleteUser (u # rest) (success, failedCount) s =
     (case deleteUser (user_id u) s of
        (Inr _, s') \<Rightarrow> deleteAllUsers_loop deleteUser rest (success + 1, failedCount) s'
      | (Inl e, s') \<Rightarrow> deleteAllUsers_loop deleteUser rest (success, failedCount + 1) s')"

definition deleteAllUsers ::
  "(string \<Rightarrow> (unit, 's) action) \<Rightarrow> user list \<Rightarrow> 's \<Rightarrow> (nat \<times> nat) \<times> 's" where
  "deleteAllUsers deleteUser us s = deleteAllUsers_loop deleteUser us (0, 0) s"

section \<open>The two \<^verbatim>\<open>main\<close> functions\<close>

text \<open>
  What a run leaves behind: \<^verbatim>\<open>process.exitCode\<close> (\<open>None\<close> while it is \<^verbatim>\<open>undefined\<close>, which
  the runtime exits with as 0) and the error that the \<^verbatim>\<open>catch\<close> block printed, if any.
  A \<^verbatim>\<open>main\<close> passes its fuel to every pagination it starts; it returns \<open>None\<close> when one
  of them runs out of it.
\<close>

record run_end =
  exitCode :: "nat option"
  printed :: "error option"


definition main_all ::
  "(string option \<Rightarrow> (users_response, 's) action) \<Rightarrow> (string \<Rightarrow> (unit, 's) action) \<Rightarrow> nat \<Rightarrow> 's
     \<Rightarrow> (run_end \<times> 's) option" where
  "main_all getUsersPage deleteUser fuel s =
     (case collectAllUsers getUsersPage fuel s of
        None \<Rightarrow> None
      | Some (Inl e, s1) \<Rightarrow> Some (\<lparr>exitCode = Some 1, printed = Some e\<rparr>, s1)
      | Some (Inr us, s1) \<Rightarrow>
          if length us = 0 then Some (\<lparr>exitCode = None, printed = None\<rparr>, s1)
          else
            (case deleteAllUsers deleteUser us s1 of
               (counts, s2) \<Rightarrow> Some (\<lparr>exitCode = None, printed = None\<rparr>, s2)))"

record totals =
  usersProcessed :: nat
  identitiesProcessed :: nat
  identitiesDeleted :: nat
  identitiesFailed :: nat

text \<open>The \<^verbatim>\<open>for (const [index, user] of orgUsers.entries())\<close> loop of \<^verbatim>\<open>main\<close>.\<close>

fun main_org_loop ::
  "(string \<Rightarrow> string option \<Rightarrow> (identities_response, 's) action) \<Rightarrow> (string \<Rightarrow> (unit, 's) action)
     \<Rightarrow> nat \<Rightarrow> user list \<Rightarrow> totals \<Rightarrow> 's \<Rightarrow> ((error + totals) \<times> 's) option" where
  "main_org_loop getUserIdentitiesPage deleteIdentity fuel [] t s = Some (Inr t, s)"
| "main_org_loop getUserIdentitiesPage deleteIdentity fuel (u # rest) t s =
     (case deleteAllUserIdentities getUserIdentitiesPage deleteIdentity fuel u s of
        None \<Rightarrow> None
      | Some (Inl e, s1) \<Rightarrow> Some (Inl e, s1)
      | Some (Inr result, s1) \<Rightarrow>
          main_org_loop getUserIdentitiesPage deleteIdentity fuel rest
            \<lparr>usersProcessed = usersProcessed t + 1,
             identitiesProcessed = identitiesProcessed t + processed result,
             identitiesDeleted = identitiesDeleted t + deleted result,
             identitiesFailed = identitiesFailed t + failed result\<rparr> s1)"

definition main_org ::
  "(string option \<Rightarrow> (users_response, 's) action)
     \<Rightarrow> (string \<Rightarrow> string option \<Rightarrow> (identities_response, 's) action)
     \<Rightarrow> (string \<Rightarrow> (unit, 's) action) \<Rightarrow> nat \<Rightarrow> 's \<Rightarrow> (run_end \<times> 's) option" where
  "main_org getOrganizationUsersPage getUserIdentitiesPage deleteIdentity fuel s =
     (case collectOrganizationUsers getOrganizationUsersPage fuel s of
        None \<Rightarrow> None
      | Some (Inl e, s1) \<Rightarrow> Some (\<lparr>exitCode = Some 1, printed = Some e\<rparr>, s1)
      | Some (Inr orgUsers, s1) \<Rightarrow>
          if length orgUsers = 0 then Some (\<lparr>exitCode = None, printed = None\<rparr>, s1)
          else
            (case main_org_loop getUserIdentitiesPage deleteIdentity fuel orgUsers
                    \<lparr>usersProcessed = 0, identitiesProcessed = 0, identitiesDeleted = 0,
                     identitiesFailed = 0\<rparr> s1 of
               None \<Rightarrow> None
             | Some (Inl e, s2) \<Rightarrow> Some (\<lparr>exitCode = Some 1, printed = Some e\<rparr>, s2)
             | Some (Inr t, s2) \<Rightarrow>
                 Some (\<lparr>exitCode = (if identitiesFailed t > 0 then Some 1 else None),
                        printed = None\<rparr>, s2)))"

section \<open>The token manager and the request executor\<close>

subsection \<open>The world outside the program\<close>

text \<open>
  A JavaScript number is a rational, \<^verbatim>\<open>NaN\<close> or an infinity; the rounding of doubles is not
  modelled. Durations computed from the settings alone are natural numbers: the product
  \<^verbatim>\<open>BASE_DELAY_MS * 2 ** attempt\<close> only passes through \<^verbatim>\<open>Math.min(..., 15000)\<close>, which also
  maps a product that overflowed to \<^verbatim>\<open>Infinity\<close> to 15000.
\<close>

datatype jsnum = NaN | Num rat | Infinity | NegInfinity

definition js_times :: "jsnum \<Rightarrow> nat \<Rightarrow> jsnum" where
  \<comment> \<open>\<^verbatim>\<open>x * k\<close> for a literal \<open>k > 0\<close>\<close>
  "js_times x k = (case x of Num q \<Rightarrow> Num (q * of_nat k) | other \<Rightarrow> other)"

definition js_plus :: "jsnum \<Rightarrow> int \<Rightarrow> jsnum" where
  \<comment> \<open>\<^verbatim>\<open>x + j\<close> for a finite \<open>j\<close>\<close>
  "js_plus x j = (case x of Num q \<Rightarrow> Num (q + of_int j) | other \<Rightarrow> other)"

text \<open>
  A URL with its HTTP verb, as the scripts build them: the path parameters, the page size
  and the token or cursor. The host is the same in every URL and is left out. A query
  parameter that is set only when its value is truthy is an \<open>option\<close>.
\<close>

datatype endpoint =
    UsersPage nat "string option"
  | UserDelete string
  | OrganizationUsersPage string nat "string option"
  | UserIdentitiesPage string nat "string option"
  | IdentityDelete string

datatype request =
    TokenExchange string string string
  | Authorized "string option" endpoint

record response =
  status :: nat
  retry_after :: "string option"
  body :: string

definition ok :: "response \<Rightarrow> bool" where
  "ok r = (200 \<le> status r \<and> status r \<le> 299)"

record token_response =
  access_token :: "string option"
  expires_in :: "int option"

record cached_token =
  token :: "string option"
  expiresAt :: int

text \<open>
  The lines that \<^verbatim>\<open>getAccessToken\<close> and \<^verbatim>\<open>requestWithRetry\<close> log. The progress lines of
  the paginators, the bulk deletions and \<^verbatim>\<open>main\<close> are not modelled; the arguments
  \<^verbatim>\<open>userIndex\<close> and \<^verbatim>\<open>totalUsers\<close>, which only feed those lines, are left out.
\<close>

datatype log_line =
    RequestingToken
  | GotToken int
  | Unauthorized401
  | Throttled nat jsnum nat

text \<open>
  The module variable \<^verbatim>\<open>tokenCache\<close>, and the outside world as scripts: the \<open>k\<close>-th call
  of \<^verbatim>\<open>fetch\<close> gets \<open>replies k\<close> (\<open>None\<close> when the promise rejects), the \<open>k\<close>-th read of
  \<^verbatim>\<open>Date.now()\<close> gets \<open>clock k\<close>, the \<open>k\<close>-th call of \<^verbatim>\<open>Math.random()\<close> gets \<open>randoms k\<close>.
  The requests sent, the durations slept and the lines logged are recorded.
\<close>

record world =
  tokenCache :: "cached_token option"
  replies :: "nat \<Rightarrow> response option"
  sent :: "request list"
  clock :: "nat \<Rightarrow> int"
  clock_reads :: nat
  randoms :: "nat \<Rightarrow> rat"
  random_calls :: nat
  slept :: "jsnum list"
  logged :: "log_line list"

definition fetch :: "request \<Rightarrow> (response, world) action" where
  "fetch req w =
     ((case replies w (length (sent w)) of None \<Rightarrow> Inl FetchRejected | Some r \<Rightarrow> Inr r),
      w\<lparr>sent := sent w @ [req]\<rparr>)"

definition Date_now :: "world \<Rightarrow> int \<times> world" where
  "Date_now w = (clock w (clock_reads w), w\<lparr>clock_reads := Suc (clock_reads w)\<rparr>)"

definition Math_random :: "world \<Rightarrow> rat \<times> world" where
  "Math_random w = (randoms w (random_calls w), w\<lparr>random_calls := Suc (random_calls w)\<rparr>)"

definition sleep :: "jsnum \<Rightarrow> world \<Rightarrow> world" where
  "sleep ms w = w\<lparr>slept := slept w @ [ms]\<rparr>"

definition log_line :: "log_line \<Rightarrow> world \<Rightarrow> world" where
  "log_line l w = w\<lparr>logged := logged w @ [l]\<rparr>"

text \<open>
  The settings read from the environment, and the functions of the runtime that read text:
  \<^verbatim>\<open>JSON.parse\<close> with the cast to the expected type (\<open>None\<close> when the text is not JSON or is
  \<^verbatim>\<open>null\<close>), \<^verbatim>\<open>Number\<close> and \<^verbatim>\<open>Date.parse\<close> (\<open>None\<close> for \<^verbatim>\<open>NaN\<close>). \<open>MAX_RETRIES\<close> and
  \<open>BASE_DELAY_MS\<close> are natural numbers, as \<^verbatim>\<open>parseNonNegativeIntEnv\<close> and
  \<^verbatim>\<open>parsePositiveIntEnv\<close> make them and as the README sets them for deleteAllUsers.ts.
\<close>

record config =
  CLIENT_ID :: string
  CLIENT_SECRET :: string
  AUDIENCE :: string
  ORG_CODE :: string
  PAGE_SIZE :: nat
  MAX_RETRIES :: nat
  BASE_DELAY_MS :: nat
  parseTokenResponse :: "string \<Rightarrow> token_response option"
  parseUsersResponse :: "string \<Rightarrow> users_response option"
  parseIdentitiesResponse :: "string \<Rightarrow> identities_response option"
  Number_of :: "string \<Rightarrow> jsnum"
  Date_parse :: "string \<Rightarrow> int option"

subsection \<open>\<^verbatim>\<open>getAccessToken\<close>\<close>

text \<open>
  \<^verbatim>\<open>!force && tokenCache && Date.now() < tokenCache.expiresAt\<close> reads the clock only when
  the first two conjuncts hold. The result is the cached token when the test succeeds.
\<close>

definition cacheHit :: "bool \<Rightarrow> world \<Rightarrow> cached_token option \<times> world" where
  "cacheHit force w =
     (if force then (None, w)
      else case tokenCache w of
             None \<Rightarrow> (None, w)
           | Some c \<Rightarrow>
               (case Date_now w of
                  (now, w1) \<Rightarrow> (if now < expiresAt c then Some c else None, w1)))"

text \<open>
  The value of that test in a world, and the number of clock reads once it is evaluated.
\<close>

definition cacheFresh :: "bool \<Rightarrow> world \<Rightarrow> bool" where
  "cacheFresh force w =
     (\<not> force \<and> (case tokenCache w of None \<Rightarrow> False | Some c \<Rightarrow> clock w (clock_reads w) < expiresAt c))"

definition readsAfterTest :: "bool \<Rightarrow> world \<Rightarrow> nat" where
  "readsAfterTest force w =
     (if force \<or> tokenCache w = None then clock_reads w else Suc (clock_reads w))"

definition getAccessToken_org :: "config \<Rightarrow> bool \<Rightarrow> (string option, world) action" where
  "getAccessToken_org cfg force w =
     (case cacheHit force w of
        (Some c, w0) \<Rightarrow> (Inr (token c), w0)
      | (None, w0) \<Rightarrow>
          (case fetch (TokenExchange (CLIENT_ID cfg) (CLIENT_SECRET cfg) (AUDIENCE cfg))
                  (log_line RequestingToken w0) of
             (Inl e, w1) \<Rightarrow> (Inl e, w1)
           | (Inr resp, w1) \<Rightarrow>
               if \<not> ok resp then (Inl (TokenRequestFailed (status resp)), w1)
               else
                 (case parseTokenResponse cfg (body resp) of
                    None \<Rightarrow> (Inl MissingAccessToken, w1)
                  | Some json \<Rightarrow>
                      if \<not> truthy (access_token json) then (Inl MissingAccessToken, w1)
                      else
                        (let expiresIn = (case expires_in json of None \<Rightarrow> 3600 | Some n \<Rightarrow> n)
                         in case Date_now w1 of
                              (now, w2) \<Rightarrow>
                                (Inr (access_token json),
                                 log_line (GotToken expiresIn)
                                   (w2\<lparr>tokenCache :=
                                         Some \<lparr>token = access_token json,
                                               expiresAt = now + max (expiresIn - 60) 0 * 1000\<rparr>\<rparr>))))))"

definition getAccessToken_all :: "config \<Rightarrow> bool \<Rightarrow> (string option, world) action" where
  "getAccessToken_all cfg force w =
     (case cacheHit force w of
        (Some c, w0) \<Rightarrow> (Inr (token c), w0)
      | (None, w0) \<Rightarrow>
          (case fetch (TokenExchange (CLIENT_ID cfg) (CLIENT_SECRET cfg) (AUDIENCE cfg))
                  (log_line RequestingToken w0) of
             (Inl e, w1) \<Rightarrow> (Inl e, w1)
           | (Inr resp, w1) \<Rightarrow>
               if \<not> ok resp then (Inl (TokenRequestFailed (status resp)), w1)
               else
                 (case parseTokenResponse cfg (body resp) of
                    None \<Rightarrow> (Inl InvalidJson, w1)
                  | Some json \<Rightarrow>
                      (let expiresIn = (case expires_in json of None \<Rightarrow> 3600 | Some n \<Rightarrow> n)
                       in case Date_now w1 of
                            (now, w2) \<Rightarrow>
                              (Inr (access_token json),
                               log_line (GotToken expiresIn)
                                 (w2\<lparr>tokenCache :=
                                       Some \<lparr>token = access_token json,
                                             expiresAt = now + (expiresIn - 60) * 1000\<rparr>\<rparr>))))))"

subsection \<open>\<^verbatim>\<open>parseRetryAfterMs\<close> (deleteOrgUsersIdentities.ts)\<close>

definition parseRetryAfterMs :: "config \<Rightarrow> string option \<Rightarrow> world \<Rightarrow> rat option \<times> world" where
  "parseRetryAfterMs cfg retryAfter w =
     (case retryAfter of
        None \<Rightarrow> (None, w)
      | Some h \<Rightarrow>
          if h = [] then (None, w)
          else
            (case Number_of cfg h of
               Num seconds \<Rightarrow>
                 if seconds \<ge> 0 then (Some (seconds * 1000), w)
                 else
                   (case Date_parse cfg h of
                      Some dateMs \<Rightarrow>
                        (case Date_now w of (now, w1) \<Rightarrow> (Some (of_int (max 0 (dateMs - now))), w1))
                    | None \<Rightarrow> (None, w))
             | other \<Rightarrow>
                 (case Date_parse cfg h of
                    Some dateMs \<Rightarrow>
                      (case Date_now w of (now, w1) \<Rightarrow> (Some (of_int (max 0 (dateMs - now))), w1))
                  | None \<Rightarrow> (None, w))))"

subsection \<open>\<^verbatim>\<open>requestWithRetry\<close>\<close>

definition retryable :: "nat \<Rightarrow> bool" where
  \<comment> \<open>\<^verbatim>\<open>status === 429 || status >= 500\<close>\<close>
  "retryable st = (st = 429 \<or> st \<ge> 500)"

function requestWithRetry_org ::
  "config \<Rightarrow> endpoint \<Rightarrow> nat \<Rightarrow> bool \<Rightarrow> (response, world) action" where
  "requestWithRetry_org cfg ep attempt refreshedAfter401 w =
     (case getAccessToken_org cfg False w of
        (Inl e, w1) \<Rightarrow> (Inl e, w1)
      | (Inr tok, w1) \<Rightarrow>
          (case fetch (Authorized tok ep) w1 of
             (Inl e, w2) \<Rightarrow> (Inl e, w2)
           | (Inr resp, w2) \<Rightarrow>
               if status resp = 401 \<and> \<not> refreshedAfter401 then
                 (case getAccessToken_org cfg True (log_line Unauthorized401 w2) of
                    (Inl e, w3) \<Rightarrow> (Inl e, w3)
                  | (Inr _, w3) \<Rightarrow> requestWithRetry_org cfg ep attempt True w3)
               else if retryable (status resp) \<and> attempt < MAX_RETRIES cfg then
                 (case parseRetryAfterMs cfg (retry_after resp) w2 of
                    (retryAfterMs, w3) \<Rightarrow>
                      (case Math_random w3 of
                         (r, w4) \<Rightarrow>
                           (let backoffMs = min (BASE_DELAY_MS cfg * 2 ^ attempt) 15000;
                                waitMs = (case retryAfterMs of None \<Rightarrow> of_nat backoffMs | Some ms \<Rightarrow> ms)
                                           + of_int \<lfloor>r * 250\<rfloor>
                            in requestWithRetry_org cfg ep (attempt + 1) refreshedAfter401
                                 (sleep (Num waitMs)
                                    (log_line (Throttled (status resp) (Num waitMs) (attempt + 1)) w4)))))
               else (Inr resp, w2)))"
  by pat_completeness auto
termination
  by (relation "measure (\<lambda>(cfg, ep, attempt, refreshedAfter401, w).
          2 * (MAX_RETRIES cfg - attempt) + (if refreshedAfter401 then 0 else 1))") auto

declare requestWithRetry_org.simps [simp del]

function requestWithRetry_all :: "config \<Rightarrow> endpoint \<Rightarrow> nat \<Rightarrow> (response, world) action" where
  "requestWithRetry_all cfg ep attempt w =
     (case getAccessToken_all cfg False w of
        (Inl e, w1) \<Rightarrow> (Inl e, w1)
      | (Inr tok, w1) \<Rightarrow>
          (case fetch (Authorized tok ep) w1 of
             (Inl e, w2) \<Rightarrow> (Inl e, w2)
           | (Inr resp, w2) \<Rightarrow>
               if status resp = 401 \<and> attempt < 1 then
                 (case getAccessToken_all cfg True (log_line Unauthorized401 w2) of
                    (Inl e, w3) \<Rightarrow> (Inl e, w3)
                  | (Inr _, w3) \<Rightarrow> requestWithRetry_all cfg ep (attempt + 1) w3)
               else if retryable (status resp) \<and> attempt < MAX_RETRIES cfg then
                 (let backoff = Num (of_nat (min (BASE_DELAY_MS cfg * 2 ^ attempt) 15000));
                      baseDelay =
                        (case retry_after resp of
                           None \<Rightarrow> backoff
                         | Some h \<Rightarrow> if h = [] then backoff else js_times (Number_of cfg h) 1000)
                  in case Math_random w2 of
                       (r, w3) \<Rightarrow>
                         (let jitter = \<lfloor>r * 250\<rfloor>
                          in requestWithRetry_all cfg ep (attempt + 1)
                               (sleep (js_plus baseDelay jitter)
                                  (log_line (Throttled (status resp) (js_plus baseDelay jitter)
                                     (attempt + 1)) w3))))
               else (Inr resp, w2)))"
  by pat_completeness auto
termination
  by (relation "measure (\<lambda>(cfg, ep, attempt, w). max (MAX_RETRIES cfg) 1 - attempt)") auto

declare requestWithRetry_all.simps [simp del]

subsection \<open>The calls made through the executor\<close>

definition presentIfTruthy :: "string option \<Rightarrow> string option" where
  \<comment> \<open>\<^verbatim>\<open>if (v) url.searchParams.set(name, v)\<close>\<close>
  "presentIfTruthy v = (if truthy v then v else None)"

definition getUsersPage :: "config \<Rightarrow> string option \<Rightarrow> (users_response, world) action" where
  "getUsersPage cfg nextToken w =
     (case requestWithRetry_all cfg (UsersPage (PAGE_SIZE cfg) (presentIfTruthy nextToken)) 0 w of
        (Inl e, w1) \<Rightarrow> (Inl e, w1)
      | (Inr resp, w1) \<Rightarrow>
          if \<not> ok resp then (Inl (GetFailed (status resp)), w1)
          else (case parseUsersResponse cfg (body resp) of
                  None \<Rightarrow> (Inl InvalidJson, w1)
                | Some data \<Rightarrow> (Inr data, w1)))"

definition deleteUser :: "config \<Rightarrow> string \<Rightarrow> (unit, world) action" where
  "deleteUser cfg userId w =
     (case requestWithRetry_all cfg (UserDelete userId) 0 w of
        (Inl e, w1) \<Rightarrow> (Inl e, w1)
      | (Inr resp, w1) \<Rightarrow>
          if \<not> ok resp then (Inl (DeleteFailed (status resp)), w1) else (Inr (), w1))"

definition getOrganizationUsersPage :: "config \<Rightarrow> string option \<Rightarrow> (users_response, world) action" where
  "getOrganizationUsersPage cfg nextToken w =
     (case requestWithRetry_org cfg
             (OrganizationUsersPage (ORG_CODE cfg) (PAGE_SIZE cfg) (presentIfTruthy nextToken))
             0 False w of
        (Inl e, w1) \<Rightarrow> (Inl e, w1)
      | (Inr resp, w1) \<Rightarrow>
          if \<not> ok resp then (Inl (GetFailed (status resp)), w1)
          else (case parseUsersResponse cfg (body resp) of
                  None \<Rightarrow> (Inl InvalidJson, w1)
                | Some data \<Rightarrow> (Inr data, w1)))"

definition getUserIdentitiesPage ::
  "config \<Rightarrow> string \<Rightarrow> string option \<Rightarrow> (identities_response, world) action" where
  "getUserIdentitiesPage cfg userId startingAfter w =
     (case requestWithRetry_org cfg
             (UserIdentitiesPage userId (PAGE_SIZE cfg) (presentIfTruthy startingAfter))
             0 False w of
        (Inl e, w1) \<Rightarrow> (Inl e, w1)
      | (Inr resp, w1) \<Rightarrow>
          if \<not> ok resp then (Inl (GetFailed (status resp)), w1)
          else (case parseIdentitiesResponse cfg (body resp) of
                  None \<Rightarrow> (Inl InvalidJson, w1)
                | Some data \<Rightarrow> (Inr data, w1)))"

definition deleteIdentity :: "config \<Rightarrow> string \<Rightarrow> (unit, world) action" where
  "deleteIdentity cfg identityId w =
     (case requestWithRetry_org cfg (IdentityDelete identityId) 0 False w of
        (Inl e, w1) \<Rightarrow> (Inl e, w1)
      | (Inr resp, w1) \<Rightarrow>
          if \<not> ok resp then (Inl (DeleteFailed (status resp)), w1) else (Inr (), w1))"

text \<open>The two scripts as a whole, on the world.\<close>

definition run_all :: "config \<Rightarrow> nat \<Rightarrow> world \<Rightarrow> (run_end \<times> world) option" where
  "run_all cfg fuel w = main_all (getUsersPage cfg) (deleteUser cfg) fuel w"

definition run_org :: "config \<Rightarrow> nat \<Rightarrow> world \<Rightarrow> (run_end \<times> world) option" where
  "run_org cfg fuel w =
     main_org (getOrganizationUsersPage cfg) (getUserIdentitiesPage cfg) (deleteIdentity cfg) fuel w"

section \<open>Observing a run\<close>

text \<open>
  A scripted server answers the \<open>k\<close>-th call with the \<open>k\<close>-th reply of its script, whatever
  the argument, and records the arguments it was called with. Every behaviour of a server
  towards one run is such a script.
\<close>

definition scripted :: "(nat \<Rightarrow> error + 'a) \<Rightarrow> 'k \<Rightarrow> ('a, 'k list) action" where
  "scripted script k calls = (script (length calls), calls @ [k])"

definition script_of :: "'a list \<Rightarrow> 'a \<Rightarrow> nat \<Rightarrow> 'a" where
  "script_of xs d i = (if i < length xs then xs ! i else d)"

text \<open>
  \<open>recording f\<close> runs \<open>f\<close> and appends the argument and whether the call returned normally
  to a record kept beside the state; \<open>unrecorded f\<close> runs \<open>f\<close> and leaves the record alone.
\<close>

definition recording :: "('k \<Rightarrow> ('a, 's) action) \<Rightarrow> 'k \<Rightarrow> ('a, 's \<times> ('k \<times> bool) list) action" where
  "recording f k = (\<lambda>(s, tr). case f k s of (r, s') \<Rightarrow> (r, (s', tr @ [(k, \<not> isl r)])))"

definition unrecorded :: "('k \<Rightarrow> ('a, 's) action) \<Rightarrow> 'k \<Rightarrow> ('a, 's \<times> 't) action" where
  "unrecorded f k = (\<lambda>(s, tr). case f k s of (r, s') \<Rightarrow> (r, (s', tr)))"

text \<open>
  The number of times the 401 branch of the executor has been taken: it logs one line, and
  nothing else logs that line.
\<close>

definition authRetries :: "world \<Rightarrow> nat" where
  "authRetries w = count_list (logged w) Unauthorized401"

text \<open>Pages and identities for the examples.\<close>

definition page :: "string list \<Rightarrow> string option \<Rightarrow> users_response" where
  "page ids tok = \<lparr>users = Some (map (\<lambda>i. \<lparr>user_id = i, user_email = None\<rparr>) ids), next_token = tok\<rparr>"

definition ident :: "string option \<Rightarrow> identity" where
  "ident i = \<lparr>identity_id = i, identity_type = None, identity_email = None, identity_name = None,
              is_primary = None\<rparr>"

definition ipage :: "string option list \<Rightarrow> bool option \<Rightarrow> identities_response" where
  "ipage ids hm = \<lparr>identities = Some (map ident ids), has_more = hm\<rparr>"

text \<open>
  A configuration and a world for the examples: the parsers know a few bodies by name, the
  clock stands still, \<^verbatim>\<open>Math.random()\<close> returns 0, and the server answers from a list and
  rejects every call after it.
\<close>

definition example_config :: config where
  "example_config =
     \<lparr>CLIENT_ID = ''id'', CLIENT_SECRET = ''secret'', AUDIENCE = ''aud'', ORG_CODE = ''org'',
      PAGE_SIZE = 10, MAX_RETRIES = 6, BASE_DELAY_MS = 500,
      parseTokenResponse =
        (\<lambda>t. if t = ''short'' then Some \<lparr>access_token = Some ''T'', expires_in = Some 30\<rparr>
             else if t = ''token'' then Some \<lparr>access_token = Some ''T'', expires_in = Some 3600\<rparr>
             else None),
      parseUsersResponse =
        (\<lambda>t. if t = ''aa'' then Some (page [''a'', ''a''] None)
             else if t = ''a'' then Some (page [''a''] None)
             else if t = ''ab'' then Some (page [''a'', ''b''] None)
             else None),
      parseIdentitiesResponse = (\<lambda>t. if t = ''i'' then Some (ipage [Some ''i1''] None) else None),
      Number_of = (\<lambda>t. if t = ''0'' then Num 0 else if t = ''20'' then Num 20 else NaN),
      Date_parse = (\<lambda>t. if t = ''date'' then Some 1003000 else None)\<rparr>"

definition reply :: "nat \<Rightarrow> string option \<Rightarrow> string \<Rightarrow> response option" where
  "reply st ra b = Some \<lparr>status = st, retry_after = ra, body = b\<rparr>"

definition example_world :: "cached_token option \<Rightarrow> response option list \<Rightarrow> world" where
  "example_world cache rs =
     \<lparr>tokenCache = cache, replies = script_of rs None, sent = [], clock = (\<lambda>k. 1000000),
      clock_reads = 0, randoms = (\<lambda>k. 0), random_calls = 0, slept = [], logged = []\<rparr>"

section \<open>Equivalence of the two opaque-token paginators\<close>

lemma collect_loops_agree:
  "collectOrganizationUsers_loop g fuel acc tok s = collectAllUsers_loop g fuel acc tok s"
proof (induction fuel arbitrary: acc tok s)
  case 0
  show ?case by simp
next
  case (Suc fuel)
  show ?case
  proof (cases "g tok s")
    case (Pair r s')
    show ?thesis
    proof (cases r)
      case (Inl e)
      with Pair show ?thesis by simp
    next
      case (Inr data)
      with Pair Suc.IH show ?thesis by (simp add: Let_def)
    qed
  qed
qed

section \<open>One iteration of each pagination loop\<close>

lemma scripted_apply: "scripted script k calls = (script (length calls), calls @ [k])"
  by (simp add: scripted_def)

lemma distinct_adj_snoc2:
  "distinct_adj (xs @ [a]) \<Longrightarrow> a \<noteq> b \<Longrightarrow> distinct_adj ((xs @ [a]) @ [b])"
  by (simp add: distinct_adj_append_iff)

lemma collectAllUsers_loop_error:
  "g tok s = (Inl e, s') \<Longrightarrow> collectAllUsers_loop g (Suc fuel) acc tok s = Some (Inl e, s')"
  by simp

lemma collectAllUsers_loop_page:
  "g tok s = (Inr data, s') \<Longrightarrow>
   collectAllUsers_loop g (Suc fuel) acc tok s =
     (if \<not> truthy (next_token data) \<or> next_token data = tok \<or> orEmpty (users data) = []
      then Some (Inr (acc @ orEmpty (users data)), s')
      else collectAllUsers_loop g fuel (acc @ orEmpty (users data)) (next_token data) s')"
  by (simp add: Let_def)

lemma collectAllUserIdentities_loop_error:
  "g (user_id u) cur s = (Inl e, s') \<Longrightarrow>
   collectAllUserIdentities_loop g (Suc fuel) u acc cur s = Some (Inl e, s')"
  by simp

lemma collectAllUserIdentities_loop_page:
  "g (user_id u) cur s = (Inr data, s') \<Longrightarrow>
   collectAllUserIdentities_loop g (Suc fuel) u acc cur s =
     (if orEmpty (identities data) = [] then Some (Inr acc, s')
      else if has_more data \<noteq> Some True \<or> \<not> truthy (lastIdentityId (orEmpty (identities data)))
               \<or> lastIdentityId (orEmpty (identities data)) = cur
      then Some (Inr (acc @ orEmpty (identities data)), s')
      else collectAllUserIdentities_loop g fuel u (acc @ orEmpty (identities data))
             (lastIdentityId (orEmpty (identities data))) s')"
  by (simp add: Let_def)

lemma collectAllUsers_loop_calls:
  "collectAllUsers_loop (scripted script) fuel acc tok calls = Some (r, calls')
     \<Longrightarrow> distinct_adj (calls @ [tok]) \<Longrightarrow> distinct_adj calls'"
proof (induction fuel arbitrary: acc tok calls)
  case 0
  then show ?case by simp
next
  case (Suc fuel)
  show ?case
  proof (cases "script (length calls)")
    case (Inl e)
    then have "scripted script tok calls = (Inl e, calls @ [tok])" by (simp add: scripted_apply)
    from collectAllUsers_loop_error [where g = "scripted script" and tok = tok and s = calls, OF this]
      Suc.prems show ?thesis by simp
  next
    case (Inr data)
    then have step: "scripted script tok calls = (Inr data, calls @ [tok])"
      by (simp add: scripted_apply)
    note unfold = collectAllUsers_loop_page
      [where g = "scripted script" and tok = tok and s = calls and fuel = fuel and acc = acc, OF step]
    show ?thesis
    proof (cases "\<not> truthy (next_token data) \<or> next_token data = tok \<or> orEmpty (users data) = []")
      case True
      with unfold Suc.prems show ?thesis by simp
    next
      case False
      with unfold Suc.prems(1)
      have run: "collectAllUsers_loop (scripted script) fuel (acc @ orEmpty (users data))
                   (next_token data) (calls @ [tok]) = Some (r, calls')"
        by simp
      from False have "tok \<noteq> next_token data" by auto
      with Suc.prems(2) have "distinct_adj ((calls @ [tok]) @ [next_token data])"
        by (rule distinct_adj_snoc2)
      with Suc.IH [OF run] show ?thesis .
    qed
  qed
qed

lemma collectAllUserIdentities_loop_calls:
  "collectAllUserIdentities_loop (\<lambda>uid. scripted script) fuel u acc cur calls = Some (r, calls')
     \<Longrightarrow> distinct_adj (calls @ [cur]) \<Longrightarrow> distinct_adj calls'"
proof (induction fuel arbitrary: acc cur calls)
  case 0
  then show ?case by simp
next
  case (Suc fuel)
  let ?g = "\<lambda>uid::string. scripted script :: string option \<Rightarrow> (identities_response, string option list) action"
  show ?case
  proof (cases "script (length calls)")
    case (Inl e)
    then have "?g (user_id u) cur calls = (Inl e, calls @ [cur])" by (simp add: scripted_apply)
    from collectAllUserIdentities_loop_error
      [where g = ?g and u = u and cur = cur and s = calls, OF this] Suc.prems
    show ?thesis by simp
  next
    case (Inr data)
    let ?page = "orEmpty (identities data)"
    from Inr have step: "?g (user_id u) cur calls = (Inr data, calls @ [cur])"
      by (simp add: scripted_apply)
    note unfold = collectAllUserIdentities_loop_page
      [where g = ?g and u = u and cur = cur and s = calls and fuel = fuel and acc = acc, OF step]
    show ?thesis
    proof (cases "?page = [] \<or> has_more data \<noteq> Some True \<or> \<not> truthy (lastIdentityId ?page)
                    \<or> lastIdentityId ?page = cur")
      case True
      with unfold Suc.prems show ?thesis by (auto split: if_splits)
    next
      case False
      with unfold Suc.prems(1)
      have run: "collectAllUserIdentities_loop ?g fuel u (acc @ ?page)
                   (lastIdentityId ?page) (calls @ [cur]) = Some (r, calls')"
        by simp
      from False have "cur \<noteq> lastIdentityId ?page" by auto
      with Suc.prems(2) have "distinct_adj ((calls @ [cur]) @ [lastIdentityId ?page])"
        by (rule distinct_adj_snoc2)
      with Suc.IH [OF run] show ?thesis .
    qed
  qed
qed


lemma collectOrganizationUsers_loop_calls:
  "collectOrganizationUsers_loop (scripted script) fuel acc tok calls = Some (r, calls')
     \<Longrightarrow> distinct_adj (calls @ [tok]) \<Longrightarrow> distinct_adj calls'"
  by (simp add: collect_loops_agree collectAllUsers_loop_calls)

lemma collectAllUsers_loop_last_request:
  "collectAllUsers_loop (scripted script) fuel acc tok calls = Some (r, calls')
     \<Longrightarrow> script k = Inr data \<Longrightarrow> orEmpty (users data) = [] \<Longrightarrow> length calls \<le> k
     \<Longrightarrow> length calls' \<le> Suc k"
proof (induction fuel arbitrary: acc tok calls)
  case 0
  then show ?case by simp
next
  case (Suc fuel)
  show ?case
  proof (cases "script (length calls)")
    case (Inl e)
    then have "scripted script tok calls = (Inl e, calls @ [tok])" by (simp add: scripted_apply)
    from collectAllUsers_loop_error [where g = "scripted script" and tok = tok and s = calls, OF this]
      Suc.prems show ?thesis by auto
  next
    case (Inr d)
    then have step: "scripted script tok calls = (Inr d, calls @ [tok])"
      by (simp add: scripted_apply)
    note unfold = collectAllUsers_loop_page
      [where g = "scripted script" and tok = tok and s = calls and fuel = fuel and acc = acc, OF step]
    show ?thesis
    proof (cases "\<not> truthy (next_token d) \<or> next_token d = tok \<or> orEmpty (users d) = []")
      case True
      with unfold Suc.prems show ?thesis by auto
    next
      case False
      with unfold Suc.prems(1)
      have run: "collectAllUsers_loop (scripted script) fuel (acc @ orEmpty (users d))
                   (next_token d) (calls @ [tok]) = Some (r, calls')"
        by simp
      from False Inr Suc.prems(2,3) have "length calls \<noteq> k" by auto
      with Suc.prems(4) have "length (calls @ [tok]) \<le> k" by simp
      from Suc.IH [OF run Suc.prems(2,3) this] show ?thesis .
    qed
  qed
qed

lemma collectAllUserIdentities_loop_last_request:
  "collectAllUserIdentities_loop (\<lambda>uid. scripted script) fuel u acc cur calls = Some (r, calls')
     \<Longrightarrow> script k = Inr data \<Longrightarrow> orEmpty (identities data) = [] \<Longrightarrow> length calls \<le> k
     \<Longrightarrow> length calls' \<le> Suc k"
proof (induction fuel arbitrary: acc cur calls)
  case 0
  then show ?case by simp
next
  case (Suc fuel)
  let ?g = "\<lambda>uid::string. scripted script :: string option \<Rightarrow> (identities_response, string option list) action"
  show ?case
  proof (cases "script (length calls)")
    case (Inl e)
    then have "?g (user_id u) cur calls = (Inl e, calls @ [cur])" by (simp add: scripted_apply)
    from collectAllUserIdentities_loop_error
      [where g = ?g and u = u and cur = cur and s = calls, OF this] Suc.prems
    show ?thesis by auto
  next
    case (Inr d)
    let ?page = "orEmpty (identities d)"
    from Inr have step: "?g (user_id u) cur calls = (Inr d, calls @ [cur])"
      by (simp add: scripted_apply)
    note unfold = collectAllUserIdentities_loop_page
      [where g = ?g and u = u and cur = cur and s = calls and fuel = fuel and acc = acc, OF step]
    show ?thesis
    proof (cases "?page = [] \<or> has_more d \<noteq> Some True \<or> \<not> truthy (lastIdentityId ?page)
                    \<or> lastIdentityId ?page = cur")
      case True
      with unfold Suc.prems show ?thesis by (auto split: if_splits)
    next
      case False
      with unfold Suc.prems(1)
      have run: "collectAllUserIdentities_loop ?g fuel u (acc @ ?page)
                   (lastIdentityId ?page) (calls @ [cur]) = Some (r, calls')"
        by simp
      from False Inr Suc.prems(2,3) have "length calls \<noteq> k" by auto
      with Suc.prems(4) have "length (calls @ [cur]) \<le> k" by simp
      from Suc.IH [OF run Suc.prems(2,3) this] show ?thesis .
    qed
  qed
qed

section \<open>The paginators\<close>

text \<open>
  C9. The organization-user paginator (empty page first, then missing token, then unchanged
  token) and the global-user paginator (one composite stop condition) are equivalent: run
  against the same page fetcher from the same state with the same fuel, they return the
  same error or the same accumulated users and leave the same state behind, so they stop
  after the same pages.
\<close>

theorem paginators_equivalent:
  "collectOrganizationUsers g fuel s = collectAllUsers g fuel s"
  by (simp add: collectOrganizationUsers_def collectAllUsers_def collect_loops_agree)

text \<open>
  C8. In each of the three pagination loops, an iteration whose fetched page holds no items
  ends the loop at once: the loop returns what it had accumulated, in the state the fetch
  left, whatever next token or \<^verbatim>\<open>has_more\<close> flag the page carries and whatever cursor was in
  use. Seen from a scripted server: when its \<open>k\<close>-th reply (counted from 0) is an empty page,
  a run that returns has sent at most \<open>k + 1\<close> page requests.
\<close>

theorem empty_page_stops_pagination:
  "(fetchPage tok s = (Inr data, s') \<and> orEmpty (users data) = []
      \<longrightarrow> collectAllUsers_loop fetchPage (Suc fuel) acc tok s = Some (Inr acc, s')
        \<and> collectOrganizationUsers_loop fetchPage (Suc fuel) acc tok s = Some (Inr acc, s'))
   \<and> (fetchIdentities (user_id u) cur z = (Inr idata, z') \<and> orEmpty (identities idata) = []
      \<longrightarrow> collectAllUserIdentities_loop fetchIdentities (Suc fuel) u iacc cur z
            = Some (Inr iacc, z'))
   \<and> (script k = Inr page0 \<and> orEmpty (users page0) = []
        \<and> collectAllUsers (scripted script) n [] = Some (r, calls)
      \<longrightarrow> length calls \<le> Suc k)
   \<and> (script k = Inr page0 \<and> orEmpty (users page0) = []
        \<and> collectOrganizationUsers (scripted script) n [] = Some (r, calls)
      \<longrightarrow> length calls \<le> Suc k)
   \<and> (iscript k = Inr ipage0 \<and> orEmpty (identities ipage0) = []
        \<and> collectAllUserIdentities (\<lambda>uid. scripted iscript) n u [] = Some (ri, cursors)
      \<longrightarrow> length cursors \<le> Suc k)"
proof (intro conjI impI)
  assume "fetchPage tok s = (Inr data, s') \<and> orEmpty (users data) = []"
  then show "collectAllUsers_loop fetchPage (Suc fuel) acc tok s = Some (Inr acc, s')"
    and "collectOrganizationUsers_loop fetchPage (Suc fuel) acc tok s = Some (Inr acc, s')"
    by (simp_all add: collect_loops_agree collectAllUsers_loop_page)
next
  assume "fetchIdentities (user_id u) cur z = (Inr idata, z') \<and> orEmpty (identities idata) = []"
  then show "collectAllUserIdentities_loop fetchIdentities (Suc fuel) u iacc cur z = Some (Inr iacc, z')"
    by (simp add: collectAllUserIdentities_loop_page)
next
  assume h: "script k = Inr page0 \<and> orEmpty (users page0) = []
        \<and> collectAllUsers (scripted script) n [] = Some (r, calls)"
  then have "collectAllUsers_loop (scripted script) n [] None [] = Some (r, calls)"
    by (simp add: collectAllUsers_def)
  from collectAllUsers_loop_last_request [OF this, of k page0] h show "length calls \<le> Suc k" by simp
next
  assume h: "script k = Inr page0 \<and> orEmpty (users page0) = []
        \<and> collectOrganizationUsers (scripted script) n [] = Some (r, calls)"
  then have "collectAllUsers_loop (scripted script) n [] None [] = Some (r, calls)"
    by (simp add: collectOrganizationUsers_def collect_loops_agree)
  from collectAllUsers_loop_last_request [OF this, of k page0] h show "length calls \<le> Suc k" by simp
next
  assume h: "iscript k = Inr ipage0 \<and> orEmpty (identities ipage0) = []
        \<and> collectAllUserIdentities (\<lambda>uid. scripted iscript) n u [] = Some (ri, cursors)"
  then have "collectAllUserIdentities_loop (\<lambda>uid. scripted iscript) n u [] None [] = Some (ri, cursors)"
    by (simp add: collectAllUserIdentities_def)
  from collectAllUserIdentities_loop_last_request [OF this, of k ipage0] h
  show "length cursors \<le> Suc k" by simp
qed

theorem empty_page_stops_pagination_witness:
  "scripted (\<lambda>i. Inr (page [] (Some ''t''))) None [] = (Inr (page [] (Some ''t'')), [None :: string option])
   \<and> orEmpty (users (page [] (Some ''t''))) = []
   \<and> collectAllUsers_loop (scripted (\<lambda>i. Inr (page [] (Some ''t'')))) (Suc 3) [] None []
        = Some (Inr [], [None])
   \<and> collectOrganizationUsers_loop (scripted (\<lambda>i. Inr (page [] (Some ''t'')))) (Suc 3) [] None []
        = Some (Inr [], [None])
   \<and> (\<lambda>uid. scripted (\<lambda>i. Inr (ipage [] (Some True)))) (user_id \<lparr>user_id = ''u'', user_email = None\<rparr>)
        (Some ''c'') [] = (Inr (ipage [] (Some True)), [Some ''c''])
   \<and> orEmpty (identities (ipage [] (Some True))) = []
   \<and> collectAllUserIdentities_loop (\<lambda>uid. scripted (\<lambda>i. Inr (ipage [] (Some True)))) (Suc 3)
        \<lparr>user_id = ''u'', user_email = None\<rparr> [ident (Some ''c'')] (Some ''c'') []
        = Some (Inr [ident (Some ''c'')], [Some ''c''])
   \<and> script_of [Inr (page [''u1''] (Some ''A'')), Inr (page [] (Some ''B''))] (Inr (page [''u9''] (Some ''Z''))) 1
        = (Inr (page [] (Some ''B'')) :: error + users_response)
   \<and> orEmpty (users (page [] (Some ''B''))) = []
   \<and> collectAllUsers
        (scripted (script_of [Inr (page [''u1''] (Some ''A'')), Inr (page [] (Some ''B''))]
                     (Inr (page [''u9''] (Some ''Z''))))) 5 []
        = Some (Inr [\<lparr>user_id = ''u1'', user_email = None\<rparr>], [None, Some ''A''])
   \<and> collectOrganizationUsers
        (scripted (script_of [Inr (page [''u1''] (Some ''A'')), Inr (page [] (Some ''B''))]
                     (Inr (page [''u9''] (Some ''Z''))))) 5 []
        = Some (Inr [\<lparr>user_id = ''u1'', user_email = None\<rparr>], [None, Some ''A''])
   \<and> length [None, Some ''A''] \<le> Suc 1
   \<and> script_of [Inr (ipage [Some ''i1''] (Some True)), Inr (ipage [] (Some True))]
        (Inr (ipage [Some ''i9''] (Some True))) 1
        = (Inr (ipage [] (Some True)) :: error + identities_response)
   \<and> collectAllUserIdentities
        (\<lambda>uid. scripted (script_of [Inr (ipage [Some ''i1''] (Some True)), Inr (ipage [] (Some True))]
                            (Inr (ipage [Some ''i9''] (Some True)))))
        5 \<lparr>user_id = ''u'', user_email = None\<rparr> []
        = Some (Inr [ident (Some ''i1'')], [None, Some ''i1''])
   \<and> length [None, Some ''i1''] \<le> Suc 1"
proof -
  let ?g = "scripted (\<lambda>i::nat. Inr (page [] (Some ''t'')) :: error + users_response)
              :: string option \<Rightarrow> (users_response, string option list) action"
  let ?gi = "\<lambda>uid::string. scripted (\<lambda>i::nat. Inr (ipage [] (Some True)) :: error + identities_response)
              :: string option \<Rightarrow> (identities_response, string option list) action"
  let ?u = "\<lparr>user_id = ''u'', user_email = None\<rparr>"
  let ?sc = "script_of [Inr (page [''u1''] (Some ''A'')), Inr (page [] (Some ''B''))]
               (Inr (page [''u9''] (Some ''Z''))) :: nat \<Rightarrow> error + users_response"
  let ?isc = "script_of [Inr (ipage [Some ''i1''] (Some True)), Inr (ipage [] (Some True))]
               (Inr (ipage [Some ''i9''] (Some True))) :: nat \<Rightarrow> error + identities_response"
  have h1: "?g None [] = (Inr (page [] (Some ''t'')), [None])" by (simp add: scripted_apply)
  have h2: "orEmpty (users (page [] (Some ''t''))) = []" by (simp add: page_def orEmpty_def)
  have h3: "?gi (user_id ?u) (Some ''c'') [] = (Inr (ipage [] (Some True)), [Some ''c''])"
    by (simp add: scripted_apply)
  have h4: "orEmpty (identities (ipage [] (Some True))) = []" by (simp add: ipage_def orEmpty_def)
  have h5: "?sc 1 = Inr (page [] (Some ''B''))" by code_simp
  have h6: "orEmpty (users (page [] (Some ''B''))) = []" by (simp add: page_def orEmpty_def)
  have h7: "collectAllUsers (scripted ?sc) 5 []
              = Some (Inr [\<lparr>user_id = ''u1'', user_email = None\<rparr>], [None, Some ''A''])"
    by code_simp
  have h8: "collectOrganizationUsers (scripted ?sc) 5 []
              = Some (Inr [\<lparr>user_id = ''u1'', user_email = None\<rparr>], [None, Some ''A''])"
    by code_simp
  have h9: "?isc 1 = Inr (ipage [] (Some True))" by code_simp
  have h10: "collectAllUserIdentities (\<lambda>uid. scripted ?isc) 5 ?u []
               = Some (Inr [ident (Some ''i1'')], [None, Some ''i1''])"
    by code_simp
  note t = empty_page_stops_pagination
    [where fetchPage = ?g and tok = None and s = "[]" and data = "page [] (Some ''t'')"
       and s' = "[None]" and fuel = 3 and acc = "[]"
       and fetchIdentities = ?gi and u = ?u and cur = "Some ''c''" and z = "[]"
       and idata = "ipage [] (Some True)" and z' = "[Some ''c'']" and iacc = "[ident (Some ''c'')]"
       and script = ?sc and k = 1 and ?page0.0 = "page [] (Some ''B'')" and n = 5
       and r = "Inr [\<lparr>user_id = ''u1'', user_email = None\<rparr>]" and calls = "[None, Some ''A'']"
       and iscript = ?isc and ?ipage0.0 = "ipage [] (Some True)"
       and ri = "Inr [ident (Some ''i1'')]" and cursors = "[None, Some ''i1'']"]
  note c12 = t [THEN conjunct1, THEN mp, OF conjI [OF h1 h2]]
  note c3 = t [THEN conjunct2, THEN conjunct1, THEN mp, OF conjI [OF h3 h4]]
  note c4 = t [THEN conjunct2, THEN conjunct2, THEN conjunct1, THEN mp, OF conjI [OF h5 conjI [OF h6 h7]]]
  note c5 = t [THEN conjunct2, THEN conjunct2, THEN conjunct2, THEN conjunct1, THEN mp,
               OF conjI [OF h5 conjI [OF h6 h8]]]
  note c6 = t [THEN conjunct2, THEN conjunct2, THEN conjunct2, THEN conjunct2, THEN mp,
               OF conjI [OF h9 conjI [OF h4 h10]]]
  from h1 h2 h3 h4 h5 h6 h7 h8 h9 h10 c12 c3 c4 c6 show ?thesis
    by (intro conjI) ((elim conjE)?, assumption)+
qed

text \<open>
  Against C3 as stated. A server that answers with the tokens A, B, A makes both opaque-token
  paginators request the token A twice: only the token of the request immediately before is
  compared.
\<close>

theorem pagination_revisits_token:
  "map_option snd
     (collectAllUsers
        (scripted (script_of [Inr (page [''u1''] (Some ''A'')), Inr (page [''u2''] (Some ''B'')),
                              Inr (page [''u3''] (Some ''A''))] (Inr (page [''u4''] None)))) 4 [])
     = Some [None, Some ''A'', Some ''B'', Some ''A'']
   \<and> map_option snd
     (collectOrganizationUsers
        (scripted (script_of [Inr (page [''u1''] (Some ''A'')), Inr (page [''u2''] (Some ''B'')),
                              Inr (page [''u3''] (Some ''A''))] (Inr (page [''u4''] None)))) 4 [])
     = Some [None, Some ''A'', Some ''B'', Some ''A'']
   \<and> \<not> distinct [None, Some ''A'', Some ''B'', Some ''A'']"
  by code_simp

text \<open>
  A server that alternates two tokens on non-empty pages keeps the loop running: no amount
  of fuel lets it return.
\<close>

lemma two_token_cycle_loops:
  "tok \<noteq> Some (if even (length calls) then ''A'' else ''B'') \<Longrightarrow>
   collectAllUsers_loop
     (scripted (\<lambda>i. Inr (page [''u''] (Some (if even i then ''A'' else ''B'')))))
     fuel acc tok calls = None"
proof (induction fuel arbitrary: acc tok calls)
  case 0
  show ?case by simp
next
  case (Suc fuel)
  let ?script = "\<lambda>i::nat. Inr (page [''u''] (Some (if even i then ''A'' else ''B''))) :: error + users_response"
  let ?data = "page [''u''] (Some (if even (length calls) then ''A'' else ''B''))"
  have step: "scripted ?script tok calls = (Inr ?data, calls @ [tok])"
    by (simp add: scripted_apply)
  have go: "\<not> (\<not> truthy (next_token ?data) \<or> next_token ?data = tok \<or> orEmpty (users ?data) = [])"
    using Suc.prems by (auto simp add: page_def truthy_def orEmpty_def)
  have next_ok: "next_token ?data \<noteq> Some (if even (length (calls @ [tok])) then ''A'' else ''B'')"
    by (simp add: page_def)
  from collectAllUsers_loop_page
    [where g = "scripted ?script" and tok = tok and s = calls and fuel = fuel and acc = acc, OF step] go
  have "collectAllUsers_loop (scripted ?script) (Suc fuel) acc tok calls =
        collectAllUsers_loop (scripted ?script) fuel (acc @ orEmpty (users ?data)) (next_token ?data)
          (calls @ [tok])"
    by (simp only: if_False)
  also have "\<dots> = None" using next_ok by (rule Suc.IH)
  finally show ?case .
qed

lemma two_token_cycle_never_ends:
  "collectAllUsers (scripted (\<lambda>i. Inr (page [''u''] (Some (if even i then ''A'' else ''B''))))) fuel []
     = None"
  unfolding collectAllUsers_def by (rule two_token_cycle_loops) simp

text \<open>
  C3, amended. In every pagination loop a page request never carries the token (or cursor)
  of the request immediately before it, and when the next token of a page (or the cursor
  derived from it) equals the one just used, pagination stops at that page. A value that
  comes back after a different one is not detected.
\<close>

theorem pagination_never_repeats_previous_token:
  "(collectAllUsers (scripted script) fuel [] = Some (r, calls) \<longrightarrow> distinct_adj calls)
   \<and> (collectOrganizationUsers (scripted script) fuel [] = Some (r', calls') \<longrightarrow> distinct_adj calls')
   \<and> (collectAllUserIdentities (\<lambda>uid. scripted iscript) fuel u [] = Some (ri, cursors)
        \<longrightarrow> distinct_adj cursors)
   \<and> (fetchPage tok s = (Inr data, s') \<and> next_token data = tok
        \<longrightarrow> collectAllUsers_loop fetchPage (Suc n) acc tok s
              = Some (Inr (acc @ orEmpty (users data)), s')
          \<and> collectOrganizationUsers_loop fetchPage (Suc n) acc tok s
              = Some (Inr (acc @ orEmpty (users data)), s'))
   \<and> (fetchIdentities (user_id v) cur z = (Inr idata, z')
        \<and> lastIdentityId (orEmpty (identities idata)) = cur
        \<longrightarrow> collectAllUserIdentities_loop fetchIdentities (Suc n) v iacc cur z
              = Some (Inr (iacc @ orEmpty (identities idata)), z'))"
proof (intro conjI impI)
  assume "collectAllUsers (scripted script) fuel [] = Some (r, calls)"
  then show "distinct_adj calls"
    unfolding collectAllUsers_def by (rule collectAllUsers_loop_calls) simp
next
  assume "collectOrganizationUsers (scripted script) fuel [] = Some (r', calls')"
  then show "distinct_adj calls'"
    unfolding collectOrganizationUsers_def by (rule collectOrganizationUsers_loop_calls) simp
next
  assume "collectAllUserIdentities (\<lambda>uid. scripted iscript) fuel u [] = Some (ri, cursors)"
  then show "distinct_adj cursors"
    unfolding collectAllUserIdentities_def by (rule collectAllUserIdentities_loop_calls) simp
next
  assume h: "fetchPage tok s = (Inr data, s') \<and> next_token data = tok"
  then show "collectAllUsers_loop fetchPage (Suc n) acc tok s
               = Some (Inr (acc @ orEmpty (users data)), s')"
    by (simp add: Let_def)
  with h show "collectOrganizationUsers_loop fetchPage (Suc n) acc tok s
               = Some (Inr (acc @ orEmpty (users data)), s')"
    by (simp add: collect_loops_agree)
next
  assume "fetchIdentities (user_id v) cur z = (Inr idata, z')
            \<and> lastIdentityId (orEmpty (identities idata)) = cur"
  then show "collectAllUserIdentities_loop fetchIdentities (Suc n) v iacc cur z
               = Some (Inr (iacc @ orEmpty (identities idata)), z')"
    by (simp add: Let_def)
qed


theorem pagination_never_repeats_previous_token_witness:
  "collectAllUsers (scripted (script_of [Inr (page [''u1''] (Some ''A''))] (Inr (page [''u2''] (Some ''A''))))) 5 []
     = Some (Inr [\<lparr>user_id = ''u1'', user_email = None\<rparr>, \<lparr>user_id = ''u2'', user_email = None\<rparr>],
             [None, Some ''A''])
   \<and> distinct_adj [None, Some ''A'']
   \<and> collectOrganizationUsers (scripted (script_of [Inr (page [''u1''] (Some ''A''))] (Inr (page [''u2''] (Some ''A''))))) 5 []
     = Some (Inr [\<lparr>user_id = ''u1'', user_email = None\<rparr>, \<lparr>user_id = ''u2'', user_email = None\<rparr>],
             [None, Some ''A''])
   \<and> collectAllUserIdentities
         (\<lambda>uid. scripted (script_of [Inr (ipage [Some ''i1''] (Some True))] (Inr (ipage [Some ''i1''] (Some True)))))
         5 \<lparr>user_id = ''u'', user_email = None\<rparr> []
     = Some (Inr [ident (Some ''i1''), ident (Some ''i1'')], [None, Some ''i1''])
   \<and> distinct_adj [None, Some ''i1'']
   \<and> scripted (script_of [Inr (page [''u1''] (Some ''A''))] (Inr (page [''u2''] (Some ''A'')))) (Some ''A'') [None]
     = (Inr (page [''u2''] (Some ''A'')), [None, Some ''A''])
   \<and> next_token (page [''u2''] (Some ''A'')) = Some ''A''
   \<and> collectAllUsers_loop (scripted (script_of [Inr (page [''u1''] (Some ''A''))] (Inr (page [''u2''] (Some ''A'')))))
         (Suc 3) [] (Some ''A'') [None]
     = Some (Inr ([] @ orEmpty (users (page [''u2''] (Some ''A'')))), [None, Some ''A''])
   \<and> collectOrganizationUsers_loop (scripted (script_of [Inr (page [''u1''] (Some ''A''))] (Inr (page [''u2''] (Some ''A'')))))
         (Suc 3) [] (Some ''A'') [None]
     = Some (Inr ([] @ orEmpty (users (page [''u2''] (Some ''A'')))), [None, Some ''A''])
   \<and> (\<lambda>uid. scripted (script_of [Inr (ipage [Some ''i1''] (Some True))] (Inr (ipage [Some ''i1''] (Some True)))))
         (user_id \<lparr>user_id = ''u'', user_email = None\<rparr>) (Some ''i1'') [None]
     = (Inr (ipage [Some ''i1''] (Some True)), [None, Some ''i1''])
   \<and> lastIdentityId (orEmpty (identities (ipage [Some ''i1''] (Some True)))) = Some ''i1''
   \<and> collectAllUserIdentities_loop
         (\<lambda>uid. scripted (script_of [Inr (ipage [Some ''i1''] (Some True))] (Inr (ipage [Some ''i1''] (Some True)))))
         (Suc 3) \<lparr>user_id = ''u'', user_email = None\<rparr> [] (Some ''i1'') [None]
     = Some (Inr ([] @ orEmpty (identities (ipage [Some ''i1''] (Some True)))), [None, Some ''i1''])"
proof -
  let ?sc = "script_of [Inr (page [''u1''] (Some ''A''))] (Inr (page [''u2''] (Some ''A'')))
               :: nat \<Rightarrow> error + users_response"
  let ?isc = "script_of [Inr (ipage [Some ''i1''] (Some True))] (Inr (ipage [Some ''i1''] (Some True)))
               :: nat \<Rightarrow> error + identities_response"
  let ?g = "scripted ?sc :: string option \<Rightarrow> (users_response, string option list) action"
  let ?gi = "\<lambda>uid::string. scripted ?isc :: string option \<Rightarrow> (identities_response, string option list) action"
  let ?u = "\<lparr>user_id = ''u'', user_email = None\<rparr>"
  let ?us = "[\<lparr>user_id = ''u1'', user_email = None\<rparr>, \<lparr>user_id = ''u2'', user_email = None\<rparr>]"
  have h1: "collectAllUsers ?g 5 [] = Some (Inr ?us, [None, Some ''A''])" by code_simp
  have h2: "collectOrganizationUsers ?g 5 [] = Some (Inr ?us, [None, Some ''A''])" by code_simp
  have h3: "collectAllUserIdentities ?gi 5 ?u []
              = Some (Inr [ident (Some ''i1''), ident (Some ''i1'')], [None, Some ''i1''])"
    by code_simp
  have h4: "?g (Some ''A'') [None] = (Inr (page [''u2''] (Some ''A'')), [None, Some ''A''])"
    by code_simp
  have h5: "next_token (page [''u2''] (Some ''A'')) = Some ''A''" by code_simp
  have h6: "?gi (user_id ?u) (Some ''i1'') [None] = (Inr (ipage [Some ''i1''] (Some True)), [None, Some ''i1''])"
    by code_simp
  have h7: "lastIdentityId (orEmpty (identities (ipage [Some ''i1''] (Some True)))) = Some ''i1''"
    by code_simp
  note t = pagination_never_repeats_previous_token
    [where script = ?sc and fuel = 5 and r = "Inr ?us" and calls = "[None, Some ''A'']"
       and r' = "Inr ?us" and calls' = "[None, Some ''A'']"
       and iscript = ?isc and u = ?u and ri = "Inr [ident (Some ''i1''), ident (Some ''i1'')]"
       and cursors = "[None, Some ''i1'']"
       and fetchPage = ?g and tok = "Some ''A''" and s = "[None]" and data = "page [''u2''] (Some ''A'')"
       and s' = "[None, Some ''A'']" and n = 3 and acc = "[]"
       and fetchIdentities = ?gi and v = ?u and cur = "Some ''i1''" and z = "[None]"
       and idata = "ipage [Some ''i1''] (Some True)" and z' = "[None, Some ''i1'']" and iacc = "[]"]
  note c1 = t [THEN conjunct1, THEN mp, OF h1]
  note c2 = t [THEN conjunct2, THEN conjunct1, THEN mp, OF h2]
  note c3 = t [THEN conjunct2, THEN conjunct2, THEN conjunct1, THEN mp, OF h3]
  note c4 = t [THEN conjunct2, THEN conjunct2, THEN conjunct2, THEN conjunct1, THEN mp, OF conjI [OF h4 h5]]
  note c5 = t [THEN conjunct2, THEN conjunct2, THEN conjunct2, THEN conjunct2, THEN mp, OF conjI [OF h6 h7]]
  from h1 h2 h3 h4 h5 h6 h7 c1 c2 c3 c4 c5 show ?thesis
    by (intro conjI) (elim conjE, assumption)+
qed



section \<open>Bulk deletion under observation\<close>

lemma Array_from_Set_snoc: "Array_from_Set (xs @ [x]) = Set_add (Array_from_Set xs) x"
  by (simp add: Array_from_Set_def)

lemma Array_from_Set_first_seen: "Array_from_Set xs = rev (remdups (rev xs))"
proof (induction xs rule: rev_induct)
  case Nil
  show ?case by (simp add: Array_from_Set_def)
next
  case (snoc x xs)
  then show ?case by (simp add: Array_from_Set_snoc Set_add_def)
qed

lemma distinct_Array_from_Set: "distinct (Array_from_Set xs)"
  by (simp add: Array_from_Set_first_seen)

lemma set_Array_from_Set: "set (Array_from_Set xs) = set xs"
  by (simp add: Array_from_Set_first_seen)

lemma set_truthyIds: "set (truthyIds xs) = {t. Some t \<in> identity_id ` set xs \<and> t \<noteq> []}"
  by (auto simp add: truthyIds_def List.map_filter_def truthy_def image_iff split: option.splits if_splits)
     (metis option.sel option.simps(3))+

lemma recording_apply:
  "recording f k (s, tr) = (fst (f k s), (snd (f k s), tr @ [(k, \<not> isl (fst (f k s)))]))"
  by (simp add: recording_def split: prod.splits)

lemma unrecorded_apply: "unrecorded f k (s, tr) = (fst (f k s), (snd (f k s), tr))"
  by (simp add: unrecorded_def split: prod.splits)

lemma deleteIdentities_loop_recorded:
  "deleteIdentities_loop (recording del) ixs res (s, tr) = (res', (s', tr')) \<Longrightarrow>
   (\<exists>new. tr' = tr @ new \<and> map fst new = map snd ixs
      \<and> deleted res' = deleted res + length (filter snd new)
      \<and> failed res' = failed res + length (filter (\<lambda>a. \<not> snd a) new)
      \<and> processed res' = (if ixs = [] then processed res else Suc (fst (last ixs))))"
proof (induction ixs arbitrary: res s tr)
  case Nil
  then show ?case by simp
next
  case (Cons ix ixs)
  obtain index identityId where ix: "ix = (index, identityId)" by (cases ix)
  let ?r = "fst (del identityId s)" and ?s1 = "snd (del identityId s)"
  let ?tr1 = "tr @ [(identityId, \<not> isl ?r)]"
  let ?res1 = "res\<lparr>processed := index + 1\<rparr>"
  show ?case
  proof (cases ?r)
    case (Inl e)
    with Cons.prems ix
    have run: "deleteIdentities_loop (recording del) ixs (?res1\<lparr>failed := failed ?res1 + 1\<rparr>) (?s1, ?tr1)
                 = (res', (s', tr'))"
      by (simp add: recording_apply)
    from Cons.IH [OF run] obtain new where new: "tr' = ?tr1 @ new" "map fst new = map snd ixs"
      "deleted res' = deleted res + length (filter snd new)"
      "failed res' = Suc (failed res) + length (filter (\<lambda>a. \<not> snd a) new)"
      "processed res' = (if ixs = [] then Suc index else Suc (fst (last ixs)))"
      by auto
    with Inl ix show ?thesis
      by (intro exI [of _ "(identityId, \<not> isl ?r) # new"]) simp
  next
    case (Inr v)
    with Cons.prems ix
    have run: "deleteIdentities_loop (recording del) ixs (?res1\<lparr>deleted := deleted ?res1 + 1\<rparr>) (?s1, ?tr1)
                 = (res', (s', tr'))"
      by (simp add: recording_apply)
    from Cons.IH [OF run] obtain new where new: "tr' = ?tr1 @ new" "map fst new = map snd ixs"
      "deleted res' = Suc (deleted res) + length (filter snd new)"
      "failed res' = failed res + length (filter (\<lambda>a. \<not> snd a) new)"
      "processed res' = (if ixs = [] then Suc index else Suc (fst (last ixs)))"
      by auto
    with Inr ix show ?thesis
      by (intro exI [of _ "(identityId, \<not> isl ?r) # new"]) simp
  qed
qed

lemma last_enumerate: "xs \<noteq> [] \<Longrightarrow> Suc (fst (last (enumerate n xs))) = n + length xs"
proof -
  assume ne: "xs \<noteq> []"
  then have "enumerate n xs \<noteq> []" by (cases xs) simp_all
  then have "last (enumerate n xs) = enumerate n xs ! (length xs - 1)"
    by (simp add: last_conv_nth)
  also from ne have "\<dots> = (n + (length xs - 1), xs ! (length xs - 1))"
    by (simp add: nth_enumerate_eq)
  finally show ?thesis using ne by (cases xs) simp_all
qed

lemma collectAllUserIdentities_loop_unrecorded:
  "collectAllUserIdentities_loop (\<lambda>uid. unrecorded (g uid)) fuel u acc cur (s, tr) =
     map_option (\<lambda>(r, s'). (r, (s', tr))) (collectAllUserIdentities_loop g fuel u acc cur s)"
proof (induction fuel arbitrary: acc cur s)
  case 0
  show ?case by simp
next
  case (Suc fuel)
  show ?case
  proof (cases "g (user_id u) cur s")
    case (Pair r s1)
    then show ?thesis
      by (cases r) (simp_all add: unrecorded_apply Let_def Suc.IH)
  qed
qed


lemma deleteAllUserIdentities_recorded:
  assumes run: "deleteAllUserIdentities (\<lambda>uid. unrecorded (g uid)) (recording del) fuel u (s, tr)
                  = Some (Inr res, (s', tr'))"
  shows "\<exists>collected s1 new.
           collectAllUserIdentities g fuel u s = Some (Inr collected, s1)
           \<and> tr' = tr @ new
           \<and> map fst new = uniqueIdentityIds collected
           \<and> deleted res = length (filter snd new)
           \<and> failed res = length (filter (\<lambda>a. \<not> snd a) new)
           \<and> processed res = length new"
proof (cases "collectAllUserIdentities g fuel u s")
  case None
  with run show ?thesis
    by (simp add: deleteAllUserIdentities_def collectAllUserIdentities_def
        collectAllUserIdentities_loop_unrecorded)
next
  case (Some p)
  obtain r s1 where p: "p = (r, s1)" by (cases p)
  show ?thesis
  proof (cases r)
    case (Inl e)
    with run Some p show ?thesis
      by (simp add: deleteAllUserIdentities_def collectAllUserIdentities_def
          collectAllUserIdentities_loop_unrecorded)
  next
    case (Inr collected)
    with Some p have c: "collectAllUserIdentities g fuel u s = Some (Inr collected, s1)" by simp
    then have c': "collectAllUserIdentities (\<lambda>uid. unrecorded (g uid)) fuel u (s, tr)
                     = Some (Inr collected, (s1, tr))"
      by (simp add: collectAllUserIdentities_def collectAllUserIdentities_loop_unrecorded)
    show ?thesis
    proof (cases "collected = []")
      case True
      with run c' have "res = \<lparr>deleted = 0, failed = 0, processed = 0\<rparr>" "tr' = tr"
        by (simp_all add: deleteAllUserIdentities_def)
      with c True show ?thesis
        by (simp add: uniqueIdentityIds_def truthyIds_def Array_from_Set_def List.map_filter_def)
    next
      case False
      let ?ids = "uniqueIdentityIds collected"
      from run c' False
      have loop: "deleteIdentities_loop (recording del) (enumerate 0 ?ids)
                    \<lparr>deleted = 0, failed = 0, processed = 0\<rparr> (s1, tr) = (res, (s', tr'))"
        by (simp add: deleteAllUserIdentities_def split: prod.splits)
      from deleteIdentities_loop_recorded [OF loop]
      obtain new where new: "tr' = tr @ new" "map fst new = ?ids"
        "deleted res = length (filter snd new)"
        "failed res = length (filter (\<lambda>a. \<not> snd a) new)"
        "processed res = (if enumerate 0 ?ids = [] then 0 else Suc (fst (last (enumerate 0 ?ids))))"
        by auto
      have "processed res = length ?ids"
      proof (cases "?ids = []")
        case True
        with new(5) show ?thesis by simp
      next
        case False
        then have "enumerate 0 ?ids \<noteq> []" by (cases ?ids) simp_all
        with new(5) last_enumerate [OF False, of 0] show ?thesis by simp
      qed
      also have "\<dots> = length new" using new(2) by (metis length_map)
      finally have "processed res = length new" .
      with c new show ?thesis by blast
    qed
  qed
qed

lemma count_split: "length (filter snd xs) + length (filter (\<lambda>a. \<not> snd a) xs) = length xs"
  by (induction xs) auto









section \<open>The bulk mutator and the exit indicator\<close>

text \<open>
  In the theorems below the page fetchers run unobserved and every call of the delete
  operation is recorded with its outcome, so the record \<open>tr\<close> lists the delete attempts of
  the run in order.
\<close>



text \<open>
  C10. An identity whose id is missing or empty is never passed to the delete operation and
  is not counted: the ids attempted are exactly the non-empty ids among the collected
  identities, and \<open>processed\<close> is their number.
\<close>

theorem falsy_identity_ids_skipped:
  assumes collect: "collectAllUserIdentities fetchIdentities fuel u s = Some (Inr collected, s1)"
    and run: "deleteAllUserIdentities (\<lambda>uid. unrecorded (fetchIdentities uid)) (recording del)
                fuel u (s, []) = Some (Inr res, (s', tr))"
  shows "[] \<notin> set (map fst tr)
         \<and> set (map fst tr) = {t. Some t \<in> identity_id ` set collected \<and> t \<noteq> []}
         \<and> processed res = card {t. Some t \<in> identity_id ` set collected \<and> t \<noteq> []}
         \<and> deleted res + failed res = processed res"
proof -
  from deleteAllUserIdentities_recorded [OF run] collect
  have a: "map fst tr = uniqueIdentityIds collected"
    and d: "deleted res = length (filter snd tr)"
    and f: "failed res = length (filter (\<lambda>a. \<not> snd a) tr)"
    and p: "processed res = length tr"
    by auto
  have s: "set (uniqueIdentityIds collected) = {t. Some t \<in> identity_id ` set collected \<and> t \<noteq> []}"
    by (simp add: uniqueIdentityIds_def set_Array_from_Set set_truthyIds)
  have "distinct (uniqueIdentityIds collected)"
    by (simp add: uniqueIdentityIds_def distinct_Array_from_Set)
  then have "card (set (uniqueIdentityIds collected)) = length (uniqueIdentityIds collected)"
    by (rule distinct_card)
  moreover from a have "length tr = length (uniqueIdentityIds collected)" by (metis length_map)
  ultimately have c: "processed res = card {t. Some t \<in> identity_id ` set collected \<and> t \<noteq> []}"
    using p s by simp
  from a s have m: "set (map fst tr) = {t. Some t \<in> identity_id ` set collected \<and> t \<noteq> []}"
    by simp
  then have "[] \<notin> set (map fst tr)" by blast
  with m c count_split [of tr] d f p show ?thesis by simp
qed

theorem falsy_identity_ids_skipped_witness:
  "collectAllUserIdentities
     (\<lambda>uid cur (n::nat). (Inr (ipage [Some ''a'', None, Some '''', Some ''b''] None), n))
     2 \<lparr>user_id = ''u'', user_email = None\<rparr> 0
     = Some (Inr (map ident [Some ''a'', None, Some '''', Some ''b'']), 0)
   \<and> deleteAllUserIdentities
     (\<lambda>uid. unrecorded ((\<lambda>uid cur (n::nat). (Inr (ipage [Some ''a'', None, Some '''', Some ''b''] None), n)) uid))
     (recording (\<lambda>k n. (Inr (), Suc n)))
     2 \<lparr>user_id = ''u'', user_email = None\<rparr> (0, [])
     = Some (Inr \<lparr>deleted = 2, failed = 0, processed = 2\<rparr>, (2, [(''a'', True), (''b'', True)]))
   \<and> [] \<notin> set (map fst [(''a'', True), (''b'', True)])
   \<and> set (map fst [(''a'', True), (''b'', True)])
       = {t. Some t \<in> identity_id ` set (map ident [Some ''a'', None, Some '''', Some ''b'']) \<and> t \<noteq> []}
   \<and> processed \<lparr>deleted = 2, failed = 0, processed = 2\<rparr>
       = card {t. Some t \<in> identity_id ` set (map ident [Some ''a'', None, Some '''', Some ''b'']) \<and> t \<noteq> []}
   \<and> deleted \<lparr>deleted = 2, failed = 0, processed = 2\<rparr> + failed \<lparr>deleted = 2, failed = 0, processed = 2\<rparr>
       = processed \<lparr>deleted = 2, failed = 0, processed = 2\<rparr>"
proof -
  let ?f = "\<lambda>(uid::string) (cur::string option) (n::nat).
              (Inr (ipage [Some ''a'', None, Some '''', Some ''b''] None) :: error + identities_response, n)"
  let ?d = "\<lambda>(k::string) (n::nat). (Inr () :: error + unit, Suc n)"
  let ?u = "\<lparr>user_id = ''u'', user_email = None\<rparr>"
  have h1: "collectAllUserIdentities ?f 2 ?u 0
              = Some (Inr (map ident [Some ''a'', None, Some '''', Some ''b'']), 0)"
    by code_simp
  have h2: "deleteAllUserIdentities (\<lambda>uid. unrecorded (?f uid)) (recording ?d) 2 ?u (0, [])
              = Some (Inr \<lparr>deleted = 2, failed = 0, processed = 2\<rparr>, (2, [(''a'', True), (''b'', True)]))"
    by code_simp
  note t = falsy_identity_ids_skipped [OF h1 h2]
  from h1 h2 t show ?thesis by (intro conjI) (elim conjE, assumption)+
qed







section \<open>The token manager\<close>

lemma cacheHit_fresh:
  "cacheFresh force w \<Longrightarrow>
   \<exists>c. tokenCache w = Some c \<and> cacheHit force w = (Some c, w\<lparr>clock_reads := Suc (clock_reads w)\<rparr>)"
  by (auto simp add: cacheFresh_def cacheHit_def Date_now_def split: option.splits)

lemma cacheHit_stale:
  "\<not> cacheFresh force w \<Longrightarrow> cacheHit force w = (None, w\<lparr>clock_reads := readsAfterTest force w\<rparr>)"
  by (auto simp add: cacheFresh_def cacheHit_def Date_now_def readsAfterTest_def split: option.splits)

lemma getAccessToken_org_fresh:
  "cacheFresh force w \<Longrightarrow> tokenCache w = Some c \<Longrightarrow>
   getAccessToken_org cfg force w = (Inr (token c), w\<lparr>clock_reads := Suc (clock_reads w)\<rparr>)"
  using cacheHit_fresh [of force w] by (auto simp add: getAccessToken_org_def)

lemma getAccessToken_all_fresh:
  "cacheFresh force w \<Longrightarrow> tokenCache w = Some c \<Longrightarrow>
   getAccessToken_all cfg force w = (Inr (token c), w\<lparr>clock_reads := Suc (clock_reads w)\<rparr>)"
  using cacheHit_fresh [of force w] by (auto simp add: getAccessToken_all_def)

lemma getAccessToken_org_sent:
  "\<not> cacheFresh force w \<Longrightarrow>
   sent (snd (getAccessToken_org cfg force w))
     = sent w @ [TokenExchange (CLIENT_ID cfg) (CLIENT_SECRET cfg) (AUDIENCE cfg)]"
  by (simp add: getAccessToken_org_def cacheHit_stale fetch_def log_line_def Date_now_def Let_def
      split: option.splits)

lemma getAccessToken_all_sent:
  "\<not> cacheFresh force w \<Longrightarrow>
   sent (snd (getAccessToken_all cfg force w))
     = sent w @ [TokenExchange (CLIENT_ID cfg) (CLIENT_SECRET cfg) (AUDIENCE cfg)]"
  by (simp add: getAccessToken_all_def cacheHit_stale fetch_def log_line_def Date_now_def Let_def
      split: option.splits)

lemma getAccessToken_org_success:
  assumes "\<not> cacheFresh force w" "replies w (length (sent w)) = Some resp" "ok resp"
    "parseTokenResponse cfg (body resp) = Some json" "truthy (access_token json)"
  shows "fst (getAccessToken_org cfg force w) = Inr (access_token json)"
    and "tokenCache (snd (getAccessToken_org cfg force w))
           = Some \<lparr>token = access_token json,
                   expiresAt = clock w (readsAfterTest force w)
                     + max ((case expires_in json of None \<Rightarrow> 3600 | Some n \<Rightarrow> n) - 60) 0 * 1000\<rparr>"
  using assms
  by (simp_all add: getAccessToken_org_def cacheHit_stale fetch_def log_line_def Date_now_def Let_def)

lemma getAccessToken_all_success:
  assumes "\<not> cacheFresh force w" "replies w (length (sent w)) = Some resp" "ok resp"
    "parseTokenResponse cfg (body resp) = Some json"
  shows "fst (getAccessToken_all cfg force w) = Inr (access_token json)"
    and "tokenCache (snd (getAccessToken_all cfg force w))
           = Some \<lparr>token = access_token json,
                   expiresAt = clock w (readsAfterTest force w)
                     + ((case expires_in json of None \<Rightarrow> 3600 | Some n \<Rightarrow> n) - 60) * 1000\<rparr>"
  using assms
  by (simp_all add: getAccessToken_all_def cacheHit_stale fetch_def log_line_def Date_now_def Let_def)

text \<open>
  Against C6 as stated. In deleteAllUsers.ts the expiry is \<^verbatim>\<open>now + (expiresIn - 60) * 1000\<close>
  without the \<^verbatim>\<open>Math.max(..., 0)\<close>: a token that expires in 30 seconds is cached with an
  expiry 30 seconds in the past.
\<close>

theorem global_token_expiry_not_clamped:
  "tokenCache (snd (getAccessToken_all example_config False
                      (example_world None [reply 200 None ''short''])))
     = Some \<lparr>token = Some ''T'', expiresAt = 970000\<rparr>
   \<and> (970000 :: int) \<noteq> 1000000 + max (30 - 60) 0 * 1000"
  by code_simp

text \<open>
  C6, amended. In both scripts: when a token is cached, no refresh is forced and the clock is
  before its expiry, the cached token is returned and the world changes only by that one
  clock read (no request is sent); otherwise exactly one request, the token exchange, is
  sent. When that exchange succeeds, deleteOrgUsersIdentities.ts caches the token with
  \<open>expiresAt = now + max (expires_in - 60) 0 * 1000\<close> and deleteAllUsers.ts caches it with
  \<open>expiresAt = now + (expires_in - 60) * 1000\<close>, where \<open>now\<close> is the clock read after the
  response and \<open>expires_in\<close> counts as 3600 when the response has none.
\<close>

theorem token_getter:
  "(cacheFresh force w \<and> tokenCache w = Some c
      \<longrightarrow> getAccessToken_org cfg force w = (Inr (token c), w\<lparr>clock_reads := Suc (clock_reads w)\<rparr>)
        \<and> getAccessToken_all cfg force w = (Inr (token c), w\<lparr>clock_reads := Suc (clock_reads w)\<rparr>))
   \<and> (\<not> cacheFresh force w
      \<longrightarrow> sent (snd (getAccessToken_org cfg force w))
            = sent w @ [TokenExchange (CLIENT_ID cfg) (CLIENT_SECRET cfg) (AUDIENCE cfg)]
        \<and> sent (snd (getAccessToken_all cfg force w))
            = sent w @ [TokenExchange (CLIENT_ID cfg) (CLIENT_SECRET cfg) (AUDIENCE cfg)])
   \<and> (\<not> cacheFresh force w \<and> replies w (length (sent w)) = Some resp \<and> ok resp
        \<and> parseTokenResponse cfg (body resp) = Some json \<and> truthy (access_token json)
      \<longrightarrow> fst (getAccessToken_org cfg force w) = Inr (access_token json)
        \<and> tokenCache (snd (getAccessToken_org cfg force w))
            = Some \<lparr>token = access_token json,
                    expiresAt = clock w (readsAfterTest force w)
                      + max ((case expires_in json of None \<Rightarrow> 3600 | Some n \<Rightarrow> n) - 60) 0 * 1000\<rparr>)
   \<and> (\<not> cacheFresh force w \<and> replies w (length (sent w)) = Some resp \<and> ok resp
        \<and> parseTokenResponse cfg (body resp) = Some json
      \<longrightarrow> fst (getAccessToken_all cfg force w) = Inr (access_token json)
        \<and> tokenCache (snd (getAccessToken_all cfg force w))
            = Some \<lparr>token = access_token json,
                    expiresAt = clock w (readsAfterTest force w)
                      + ((case expires_in json of None \<Rightarrow> 3600 | Some n \<Rightarrow> n) - 60) * 1000\<rparr>)"
  by (intro conjI impI)
     (simp_all add: getAccessToken_org_fresh getAccessToken_all_fresh getAccessToken_org_sent
        getAccessToken_all_sent getAccessToken_org_success getAccessToken_all_success)

theorem token_getter_witness:
  "cacheFresh False (example_world (Some \<lparr>token = Some ''C'', expiresAt = 2000000\<rparr>) [])
   \<and> tokenCache (example_world (Some \<lparr>token = Some ''C'', expiresAt = 2000000\<rparr>) [])
       = Some \<lparr>token = Some ''C'', expiresAt = 2000000\<rparr>
   \<and> getAccessToken_org example_config False
        (example_world (Some \<lparr>token = Some ''C'', expiresAt = 2000000\<rparr>) [])
       = (Inr (token \<lparr>token = Some ''C'', expiresAt = 2000000\<rparr>),
          (example_world (Some \<lparr>token = Some ''C'', expiresAt = 2000000\<rparr>) [])
            \<lparr>clock_reads := Suc (clock_reads (example_world (Some \<lparr>token = Some ''C'', expiresAt = 2000000\<rparr>) []))\<rparr>)
   \<and> getAccessToken_all example_config False
        (example_world (Some \<lparr>token = Some ''C'', expiresAt = 2000000\<rparr>) [])
       = (Inr (token \<lparr>token = Some ''C'', expiresAt = 2000000\<rparr>),
          (example_world (Some \<lparr>token = Some ''C'', expiresAt = 2000000\<rparr>) [])
            \<lparr>clock_reads := Suc (clock_reads (example_world (Some \<lparr>token = Some ''C'', expiresAt = 2000000\<rparr>) []))\<rparr>)
   \<and> \<not> cacheFresh False (example_world None [reply 200 None ''short''])
   \<and> replies (example_world None [reply 200 None ''short''])
        (length (sent (example_world None [reply 200 None ''short''])))
       = Some \<lparr>status = 200, retry_after = None, body = ''short''\<rparr>
   \<and> ok \<lparr>status = 200, retry_after = None, body = ''short''\<rparr>
   \<and> parseTokenResponse example_config (body \<lparr>status = 200, retry_after = None, body = ''short''\<rparr>)
       = Some \<lparr>access_token = Some ''T'', expires_in = Some 30\<rparr>
   \<and> truthy (access_token \<lparr>access_token = Some ''T'', expires_in = Some 30\<rparr>)
   \<and> sent (snd (getAccessToken_org example_config False (example_world None [reply 200 None ''short''])))
       = [TokenExchange ''id'' ''secret'' ''aud'']
   \<and> sent (snd (getAccessToken_all example_config False (example_world None [reply 200 None ''short''])))
       = [TokenExchange ''id'' ''secret'' ''aud'']
   \<and> fst (getAccessToken_org example_config False (example_world None [reply 200 None ''short'']))
       = Inr (Some ''T'')
   \<and> tokenCache (snd (getAccessToken_org example_config False (example_world None [reply 200 None ''short''])))
       = Some \<lparr>token = Some ''T'', expiresAt = 1000000\<rparr>
   \<and> fst (getAccessToken_all example_config False (example_world None [reply 200 None ''short'']))
       = Inr (Some ''T'')
   \<and> tokenCache (snd (getAccessToken_all example_config False (example_world None [reply 200 None ''short''])))
       = Some \<lparr>token = Some ''T'', expiresAt = 970000\<rparr>"
proof -
  let ?c = "\<lparr>token = Some ''C'', expiresAt = 2000000\<rparr>"
  let ?warm = "example_world (Some ?c) []"
  let ?cold = "example_world None [reply 200 None ''short'']"
  let ?resp = "\<lparr>status = 200, retry_after = None, body = ''short''\<rparr>"
  let ?json = "\<lparr>access_token = Some ''T'', expires_in = Some 30\<rparr>"
  have h1: "cacheFresh False ?warm" by code_simp
  have h2: "tokenCache ?warm = Some ?c" by code_simp
  have h3: "\<not> cacheFresh False ?cold" by code_simp
  have h4: "replies ?cold (length (sent ?cold)) = Some ?resp" by code_simp
  have h5: "ok ?resp" by code_simp
  have h6: "parseTokenResponse example_config (body ?resp) = Some ?json" by code_simp
  have h7: "truthy (access_token ?json)" by code_simp
  note tw = token_getter [where force = False and w = ?warm and c = ?c and cfg = example_config]
  note tc = token_getter [where force = False and w = ?cold and cfg = example_config
                            and resp = ?resp and json = ?json]
  note c1 = tw [THEN conjunct1, THEN mp, OF conjI [OF h1 h2]]
  note c2 = tc [THEN conjunct2, THEN conjunct1, THEN mp, OF h3]
  note c3 = tc [THEN conjunct2, THEN conjunct2, THEN conjunct1, THEN mp,
                OF conjI [OF h3 conjI [OF h4 conjI [OF h5 conjI [OF h6 h7]]]]]
  note c4 = tc [THEN conjunct2, THEN conjunct2, THEN conjunct2, THEN mp,
                OF conjI [OF h3 conjI [OF h4 conjI [OF h5 h6]]]]
  have e0: "sent ?cold @ [TokenExchange (CLIENT_ID example_config) (CLIENT_SECRET example_config)
                            (AUDIENCE example_config)] = [TokenExchange ''id'' ''secret'' ''aud'']"
    by code_simp
  have e1: "\<lparr>token = access_token ?json,
             expiresAt = clock ?cold (readsAfterTest False ?cold)
               + max ((case expires_in ?json of None \<Rightarrow> 3600 | Some n \<Rightarrow> n) - 60) 0 * 1000\<rparr>
            = \<lparr>token = Some ''T'', expiresAt = 1000000\<rparr>"
    by code_simp
  have e2: "\<lparr>token = access_token ?json,
             expiresAt = clock ?cold (readsAfterTest False ?cold)
               + ((case expires_in ?json of None \<Rightarrow> 3600 | Some n \<Rightarrow> n) - 60) * 1000\<rparr>
            = \<lparr>token = Some ''T'', expiresAt = 970000\<rparr>"
    by code_simp
  have e3: "access_token ?json = Some ''T''" by simp
  from c2 e0 have d2: "sent (snd (getAccessToken_org example_config False ?cold)) = [TokenExchange ''id'' ''secret'' ''aud'']"
    "sent (snd (getAccessToken_all example_config False ?cold)) = [TokenExchange ''id'' ''secret'' ''aud'']"
    by (simp_all only:)
  from c3 e1 e3 have d3: "fst (getAccessToken_org example_config False ?cold) = Inr (Some ''T'')"
    "tokenCache (snd (getAccessToken_org example_config False ?cold)) = Some \<lparr>token = Some ''T'', expiresAt = 1000000\<rparr>"
    by (simp_all only:)
  from c4 e2 e3 have d4: "fst (getAccessToken_all example_config False ?cold) = Inr (Some ''T'')"
    "tokenCache (snd (getAccessToken_all example_config False ?cold)) = Some \<lparr>token = Some ''T'', expiresAt = 970000\<rparr>"
    by (simp_all only:)
  from h1 h2 h3 h4 h5 h6 h7 c1 d2 d3 d4 show ?thesis
    by (intro conjI) ((elim conjE)?, assumption)+
qed

section \<open>The request executor\<close>

lemma requestWithRetry_org_cases [case_names token_error fetch_error refresh_error auth_retry backoff final]:
  obtains
    (token_error) e w1 where
      "getAccessToken_org cfg False w = (Inl e, w1)"
      "requestWithRetry_org cfg ep attempt refreshed w = (Inl e, w1)"
  | (fetch_error) tok w1 e w2 where
      "getAccessToken_org cfg False w = (Inr tok, w1)"
      "fetch (Authorized tok ep) w1 = (Inl e, w2)"
      "requestWithRetry_org cfg ep attempt refreshed w = (Inl e, w2)"
  | (refresh_error) tok w1 resp w2 e w3 where
      "getAccessToken_org cfg False w = (Inr tok, w1)"
      "fetch (Authorized tok ep) w1 = (Inr resp, w2)"
      "status resp = 401" "\<not> refreshed"
      "getAccessToken_org cfg True (log_line Unauthorized401 w2) = (Inl e, w3)"
      "requestWithRetry_org cfg ep attempt refreshed w = (Inl e, w3)"
  | (auth_retry) tok w1 resp w2 tok' w3 where
      "getAccessToken_org cfg False w = (Inr tok, w1)"
      "fetch (Authorized tok ep) w1 = (Inr resp, w2)"
      "status resp = 401" "\<not> refreshed"
      "getAccessToken_org cfg True (log_line Unauthorized401 w2) = (Inr tok', w3)"
      "requestWithRetry_org cfg ep attempt refreshed w = requestWithRetry_org cfg ep attempt True w3"
  | (backoff) tok w1 resp w2 hint w3 where
      "getAccessToken_org cfg False w = (Inr tok, w1)"
      "fetch (Authorized tok ep) w1 = (Inr resp, w2)"
      "\<not> (status resp = 401 \<and> \<not> refreshed)"
      "retryable (status resp)" "attempt < MAX_RETRIES cfg"
      "parseRetryAfterMs cfg (retry_after resp) w2 = (hint, w3)"
      "requestWithRetry_org cfg ep attempt refreshed w =
         requestWithRetry_org cfg ep (attempt + 1) refreshed
           (sleep (Num ((case hint of None \<Rightarrow> of_nat (min (BASE_DELAY_MS cfg * 2 ^ attempt) 15000)
                          | Some ms \<Rightarrow> ms) + of_int \<lfloor>randoms w3 (random_calls w3) * 250\<rfloor>))
              (log_line (Throttled (status resp)
                 (Num ((case hint of None \<Rightarrow> of_nat (min (BASE_DELAY_MS cfg * 2 ^ attempt) 15000)
                          | Some ms \<Rightarrow> ms) + of_int \<lfloor>randoms w3 (random_calls w3) * 250\<rfloor>))
                 (attempt + 1))
                 (w3\<lparr>random_calls := Suc (random_calls w3)\<rparr>)))"
  | (final) tok w1 resp w2 where
      "getAccessToken_org cfg False w = (Inr tok, w1)"
      "fetch (Authorized tok ep) w1 = (Inr resp, w2)"
      "\<not> (status resp = 401 \<and> \<not> refreshed)"
      "\<not> (retryable (status resp) \<and> attempt < MAX_RETRIES cfg)"
      "requestWithRetry_org cfg ep attempt refreshed w = (Inr resp, w2)"
proof -
  note unfold = requestWithRetry_org.simps [of cfg ep attempt refreshed w]
  obtain r1 w1 where g: "getAccessToken_org cfg False w = (r1, w1)" by (cases "getAccessToken_org cfg False w")
  show ?thesis
  proof (cases r1)
    case (Inl e)
    with g unfold show ?thesis by (intro token_error [of e w1]) simp_all
  next
    case (Inr tok)
    note tok = this
    obtain r2 w2 where f: "fetch (Authorized tok ep) w1 = (r2, w2)" by (cases "fetch (Authorized tok ep) w1")
    show ?thesis
    proof (cases r2)
      case (Inl e)
      with g tok f unfold show ?thesis
        by (intro fetch_error [of tok w1 e w2]) simp_all
    next
      case (Inr resp)
      note resp = this
      show ?thesis
      proof (cases "status resp = 401 \<and> \<not> refreshed")
        case True
        obtain r3 w3 where a: "getAccessToken_org cfg True (log_line Unauthorized401 w2) = (r3, w3)"
          by (cases "getAccessToken_org cfg True (log_line Unauthorized401 w2)")
        show ?thesis
        proof (cases r3)
          case (Inl e)
          with g tok f resp True a unfold show ?thesis
            by (intro refresh_error [of tok w1 resp w2 e w3]) simp_all
        next
          case (Inr tok')
          with g tok f resp True a unfold show ?thesis
            by (intro auth_retry [of tok w1 resp w2 tok' w3]) simp_all
        qed
      next
        case False
        note no401 = this
        show ?thesis
        proof (cases "retryable (status resp) \<and> attempt < MAX_RETRIES cfg")
          case True
          obtain hint w3 where p: "parseRetryAfterMs cfg (retry_after resp) w2 = (hint, w3)"
            by (cases "parseRetryAfterMs cfg (retry_after resp) w2")
          from g tok f resp no401 True p unfold show ?thesis
            by (intro backoff [of tok w1 resp w2 hint w3]) (auto simp add: Math_random_def Let_def)
        next
          case False
          with g tok f resp no401 unfold show ?thesis
            by (intro final [of tok w1 resp w2]) auto
        qed
      qed
    qed
  qed
qed


subsection \<open>What the parts leave alone\<close>

lemma cacheHit_frame:
  "cacheHit force w = (c, w0) \<Longrightarrow>
   logged w0 = logged w \<and> slept w0 = slept w \<and> sent w0 = sent w"
  by (auto simp add: cacheHit_def Date_now_def split: if_splits option.splits)

lemma getAccessToken_org_frame:
  "getAccessToken_org cfg force w = (r, w') \<Longrightarrow> authRetries w' = authRetries w \<and> slept w' = slept w"
  by (cases "cacheHit force w")
     (auto simp add: getAccessToken_org_def authRetries_def fetch_def log_line_def Date_now_def Let_def
        dest!: cacheHit_frame split: option.splits if_splits sum.splits prod.splits)


lemma fetch_frame:
  "fetch req w = (r, w') \<Longrightarrow> authRetries w' = authRetries w \<and> slept w' = slept w"
  by (auto simp add: fetch_def authRetries_def)

lemma parseRetryAfterMs_frame:
  "parseRetryAfterMs cfg h w = (r, w') \<Longrightarrow> authRetries w' = authRetries w \<and> slept w' = slept w"
  by (auto simp add: parseRetryAfterMs_def authRetries_def Date_now_def
      split: option.splits if_splits jsnum.splits)

lemma authRetries_log_401 [simp]: "authRetries (log_line Unauthorized401 w) = Suc (authRetries w)"
  by (simp add: authRetries_def log_line_def)

lemma authRetries_backoff [simp]:
  "authRetries (sleep ms (log_line (Throttled st d n) (w\<lparr>random_calls := k\<rparr>))) = authRetries w"
  by (simp add: authRetries_def log_line_def sleep_def)

lemma slept_backoff [simp]:
  "slept (sleep ms (log_line l (w\<lparr>random_calls := k\<rparr>))) = slept w @ [ms]"
  by (simp add: log_line_def sleep_def)

lemma slept_log_line [simp]: "slept (log_line l w) = slept w"
  by (simp add: log_line_def)

lemma requestWithRetry_org_authRetries:
  "authRetries (snd (requestWithRetry_org cfg ep attempt refreshed w))
     \<le> authRetries w + (if refreshed then 0 else 1)"
proof (induction "2 * (MAX_RETRIES cfg - attempt) + (if refreshed then 0 else 1 :: nat)"
         arbitrary: attempt refreshed w rule: less_induct)
  case less
  show ?case
  proof (cases rule: requestWithRetry_org_cases [of cfg w ep attempt refreshed])
    case (token_error e w1)
    then show ?thesis using getAccessToken_org_frame [of cfg False w "Inl e" w1] by simp
  next
    case (fetch_error tok w1 e w2)
    then show ?thesis
      using getAccessToken_org_frame [of cfg False w "Inr tok" w1]
        fetch_frame [of "Authorized tok ep" w1 "Inl e" w2] by simp
  next
    case (refresh_error tok w1 resp w2 e w3)
    then show ?thesis
      using getAccessToken_org_frame [of cfg False w "Inr tok" w1]
        fetch_frame [of "Authorized tok ep" w1 "Inr resp" w2]
        getAccessToken_org_frame [of cfg True "log_line Unauthorized401 w2" "Inl e" w3] by simp
  next
    case (auth_retry tok w1 resp w2 tok' w3)
    from auth_retry(4) have "2 * (MAX_RETRIES cfg - attempt) + (if True then 0 else 1 :: nat)
        < 2 * (MAX_RETRIES cfg - attempt) + (if refreshed then 0 else 1)" by simp
    from less [OF this, of w3]
    have "authRetries (snd (requestWithRetry_org cfg ep attempt True w3)) \<le> authRetries w3" by simp
    with auth_retry show ?thesis
      using getAccessToken_org_frame [of cfg False w "Inr tok" w1]
        fetch_frame [of "Authorized tok ep" w1 "Inr resp" w2]
        getAccessToken_org_frame [of cfg True "log_line Unauthorized401 w2" "Inr tok'" w3] by simp
  next
    case (backoff tok w1 resp w2 hint w3)
    let ?w5 = "sleep (Num ((case hint of None \<Rightarrow> of_nat (min (BASE_DELAY_MS cfg * 2 ^ attempt) 15000)
                          | Some ms \<Rightarrow> ms) + of_int \<lfloor>randoms w3 (random_calls w3) * 250\<rfloor>))
              (log_line (Throttled (status resp)
                 (Num ((case hint of None \<Rightarrow> of_nat (min (BASE_DELAY_MS cfg * 2 ^ attempt) 15000)
                          | Some ms \<Rightarrow> ms) + of_int \<lfloor>randoms w3 (random_calls w3) * 250\<rfloor>))
                 (attempt + 1))
                 (w3\<lparr>random_calls := Suc (random_calls w3)\<rparr>))"
    from backoff(5) have "2 * (MAX_RETRIES cfg - (attempt + 1)) + (if refreshed then 0 else 1 :: nat)
        < 2 * (MAX_RETRIES cfg - attempt) + (if refreshed then 0 else 1)" by auto
    from less [OF this, of ?w5]
    have "authRetries (snd (requestWithRetry_org cfg ep (attempt + 1) refreshed ?w5))
            \<le> authRetries w3 + (if refreshed then 0 else 1)" by simp
    with backoff show ?thesis
      using getAccessToken_org_frame [of cfg False w "Inr tok" w1]
        fetch_frame [of "Authorized tok ep" w1 "Inr resp" w2]
        parseRetryAfterMs_frame [of cfg "retry_after resp" w2 hint w3] by simp
  next
    case (final tok w1 resp w2)
    then show ?thesis
      using getAccessToken_org_frame [of cfg False w "Inr tok" w1]
        fetch_frame [of "Authorized tok ep" w1 "Inr resp" w2] by simp
  qed
qed



lemma sent_log_line [simp]: "sent (log_line l w) = sent w"
  by (simp add: log_line_def)

text \<open>
  Against C4 as stated. In deleteAllUsers.ts the 401 branch is guarded by \<^verbatim>\<open>attempt < 1\<close>, the
  counter of the 429/5xx retries: a 401 that arrives after one such retry is the first 401
  of the call and is returned without a refresh and without a retry.
\<close>

theorem global_401_after_retry_not_refreshed:
  "fst (requestWithRetry_all example_config (UserDelete ''a'') 0
          (example_world None [reply 200 None ''token'', reply 429 None '''', reply 401 None '''',
                               reply 204 None '''']))
     = Inr \<lparr>status = 401, retry_after = None, body = ''''\<rparr>
   \<and> sent (snd (requestWithRetry_all example_config (UserDelete ''a'') 0
          (example_world None [reply 200 None ''token'', reply 429 None '''', reply 401 None '''',
                               reply 204 None ''''])))
     = [TokenExchange ''id'' ''secret'' ''aud'', Authorized (Some ''T'') (UserDelete ''a''),
        Authorized (Some ''T'') (UserDelete ''a'')]
   \<and> authRetries (snd (requestWithRetry_all example_config (UserDelete ''a'') 0
          (example_world None [reply 200 None ''token'', reply 429 None '''', reply 401 None '''',
                               reply 204 None '''']))) = 0"
  by code_simp

text \<open>
  C4, amended. In deleteOrgUsersIdentities.ts: on a 401 of a call that has not refreshed yet,
  the token is force-refreshed (one token exchange is sent) and the call is retried with the
  attempt counter unchanged, whatever its value; a 401 of a call that has refreshed is
  returned as it is; and one logical call takes the 401 branch at most once. In
  deleteAllUsers.ts the auth retry shares the attempt counter: a 401 at attempt 0 forces a
  refresh and retries with attempt 1, and a 401 at any attempt from 1 on is returned as it is.
\<close>

theorem auth_retry_policy:
  "(getAccessToken_org cfg False w = (Inr tok, w1) \<and> fetch (Authorized tok ep) w1 = (Inr resp, w2)
      \<and> status resp = 401
      \<and> getAccessToken_org cfg True (log_line Unauthorized401 w2) = (Inr tok', w3)
     \<longrightarrow> requestWithRetry_org cfg ep attempt False w = requestWithRetry_org cfg ep attempt True w3
       \<and> sent w3 = sent w2 @ [TokenExchange (CLIENT_ID cfg) (CLIENT_SECRET cfg) (AUDIENCE cfg)])
   \<and> (getAccessToken_org cfg False w = (Inr tok, w1) \<and> fetch (Authorized tok ep) w1 = (Inr resp, w2)
      \<and> status resp = 401
     \<longrightarrow> requestWithRetry_org cfg ep attempt True w = (Inr resp, w2))
   \<and> authRetries (snd (requestWithRetry_org cfg ep attempt refreshed w))
       \<le> authRetries w + (if refreshed then 0 else 1)
   \<and> (getAccessToken_all cfg False w = (Inr tok, w1) \<and> fetch (Authorized tok ep) w1 = (Inr resp, w2)
      \<and> status resp = 401
      \<and> getAccessToken_all cfg True (log_line Unauthorized401 w2) = (Inr tok', w3)
     \<longrightarrow> requestWithRetry_all cfg ep 0 w = requestWithRetry_all cfg ep 1 w3)
   \<and> (getAccessToken_all cfg False w = (Inr tok, w1) \<and> fetch (Authorized tok ep) w1 = (Inr resp, w2)
      \<and> status resp = 401 \<and> 1 \<le> attempt
     \<longrightarrow> requestWithRetry_all cfg ep attempt w = (Inr resp, w2))"
proof (intro conjI impI)
  assume h: "getAccessToken_org cfg False w = (Inr tok, w1) \<and> fetch (Authorized tok ep) w1 = (Inr resp, w2)
      \<and> status resp = 401
      \<and> getAccessToken_org cfg True (log_line Unauthorized401 w2) = (Inr tok', w3)"
  then show "requestWithRetry_org cfg ep attempt False w = requestWithRetry_org cfg ep attempt True w3"
    by (subst requestWithRetry_org.simps) simp
  have "\<not> cacheFresh True (log_line Unauthorized401 w2)" by (simp add: cacheFresh_def)
  from getAccessToken_org_sent [OF this, of cfg] h
  show "sent w3 = sent w2 @ [TokenExchange (CLIENT_ID cfg) (CLIENT_SECRET cfg) (AUDIENCE cfg)]"
    by simp
next
  assume "getAccessToken_org cfg False w = (Inr tok, w1) \<and> fetch (Authorized tok ep) w1 = (Inr resp, w2)
      \<and> status resp = 401"
  then show "requestWithRetry_org cfg ep attempt True w = (Inr resp, w2)"
    by (subst requestWithRetry_org.simps) (simp add: retryable_def)
next
  show "authRetries (snd (requestWithRetry_org cfg ep attempt refreshed w))
          \<le> authRetries w + (if refreshed then 0 else 1)"
    by (rule requestWithRetry_org_authRetries)
next
  assume "getAccessToken_all cfg False w = (Inr tok, w1) \<and> fetch (Authorized tok ep) w1 = (Inr resp, w2)
      \<and> status resp = 401
      \<and> getAccessToken_all cfg True (log_line Unauthorized401 w2) = (Inr tok', w3)"
  then show "requestWithRetry_all cfg ep 0 w = requestWithRetry_all cfg ep 1 w3"
    by (subst requestWithRetry_all.simps) simp
next
  assume "getAccessToken_all cfg False w = (Inr tok, w1) \<and> fetch (Authorized tok ep) w1 = (Inr resp, w2)
      \<and> status resp = 401 \<and> 1 \<le> attempt"
  then show "requestWithRetry_all cfg ep attempt w = (Inr resp, w2)"
    by (subst requestWithRetry_all.simps) (simp add: retryable_def)
qed

theorem auth_retry_policy_witness:
  "(let w = example_world (Some \<lparr>token = Some ''C'', expiresAt = 2000000\<rparr>)
             [reply 401 None '''', reply 200 None ''token'', reply 401 None ''''];
       a1 = snd (getAccessToken_org example_config False w);
       a2 = snd (fetch (Authorized (Some ''C'') (IdentityDelete ''i'')) a1);
       a3 = snd (getAccessToken_org example_config True (log_line Unauthorized401 a2));
       a4 = snd (getAccessToken_org example_config False a3);
       a5 = snd (fetch (Authorized (Some ''T'') (IdentityDelete ''i'')) a4);
       b1 = snd (getAccessToken_all example_config False w);
       b2 = snd (fetch (Authorized (Some ''C'') (IdentityDelete ''i'')) b1);
       b3 = snd (getAccessToken_all example_config True (log_line Unauthorized401 b2));
       b4 = snd (getAccessToken_all example_config False b3);
       b5 = snd (fetch (Authorized (Some ''T'') (IdentityDelete ''i'')) b4)
   in getAccessToken_org example_config False w = (Inr (Some ''C''), a1)
      \<and> fetch (Authorized (Some ''C'') (IdentityDelete ''i'')) a1 = (Inr \<lparr>status = 401, retry_after = None, body = ''''\<rparr>, a2)
      \<and> status \<lparr>status = 401, retry_after = None, body = ''''\<rparr> = 401
      \<and> getAccessToken_org example_config True (log_line Unauthorized401 a2) = (Inr (Some ''T''), a3)
      \<and> getAccessToken_org example_config False a3 = (Inr (Some ''T''), a4)
      \<and> fetch (Authorized (Some ''T'') (IdentityDelete ''i'')) a4 = (Inr \<lparr>status = 401, retry_after = None, body = ''''\<rparr>, a5)
      \<and> getAccessToken_all example_config False w = (Inr (Some ''C''), b1)
      \<and> fetch (Authorized (Some ''C'') (IdentityDelete ''i'')) b1 = (Inr \<lparr>status = 401, retry_after = None, body = ''''\<rparr>, b2)
      \<and> status \<lparr>status = 401, retry_after = None, body = ''''\<rparr> = 401
      \<and> getAccessToken_all example_config True (log_line Unauthorized401 b2) = (Inr (Some ''T''), b3)
      \<and> getAccessToken_all example_config False b3 = (Inr (Some ''T''), b4)
      \<and> fetch (Authorized (Some ''T'') (IdentityDelete ''i'')) b4 = (Inr \<lparr>status = 401, retry_after = None, body = ''''\<rparr>, b5)
      \<and> (1::nat) \<le> 1
      \<and> requestWithRetry_org example_config (IdentityDelete ''i'') 6 False w = requestWithRetry_org example_config (IdentityDelete ''i'') 6 True a3
      \<and> sent a3 = sent a2 @ [TokenExchange (CLIENT_ID example_config) (CLIENT_SECRET example_config) (AUDIENCE example_config)]
      \<and> requestWithRetry_org example_config (IdentityDelete ''i'') 6 True a3 = (Inr \<lparr>status = 401, retry_after = None, body = ''''\<rparr>, a5)
      \<and> requestWithRetry_all example_config (IdentityDelete ''i'') 0 w = requestWithRetry_all example_config (IdentityDelete ''i'') 1 b3
      \<and> requestWithRetry_all example_config (IdentityDelete ''i'') 1 b3 = (Inr \<lparr>status = 401, retry_after = None, body = ''''\<rparr>, b5)
      \<and> sent (snd (requestWithRetry_org example_config (IdentityDelete ''i'') 6 False w))
        = [Authorized (Some ''C'') (IdentityDelete ''i''), TokenExchange ''id'' ''secret'' ''aud'',
           Authorized (Some ''T'') (IdentityDelete ''i'')])"
proof -
  let ?w = "example_world (Some \<lparr>token = Some ''C'', expiresAt = 2000000\<rparr>)
             [reply 401 None '''', reply 200 None ''token'', reply 401 None '''']"
  let ?a1 = "snd (getAccessToken_org example_config False ?w)"
  let ?a2 = "snd (fetch (Authorized (Some ''C'') (IdentityDelete ''i'')) ?a1)"
  let ?a3 = "snd (getAccessToken_org example_config True (log_line Unauthorized401 ?a2))"
  let ?a4 = "snd (getAccessToken_org example_config False ?a3)"
  let ?a5 = "snd (fetch (Authorized (Some ''T'') (IdentityDelete ''i'')) ?a4)"
  let ?b1 = "snd (getAccessToken_all example_config False ?w)"
  let ?b2 = "snd (fetch (Authorized (Some ''C'') (IdentityDelete ''i'')) ?b1)"
  let ?b3 = "snd (getAccessToken_all example_config True (log_line Unauthorized401 ?b2))"
  let ?b4 = "snd (getAccessToken_all example_config False ?b3)"
  let ?b5 = "snd (fetch (Authorized (Some ''T'') (IdentityDelete ''i'')) ?b4)"
  have "fst (getAccessToken_org example_config False ?w) = Inr (Some ''C'')" by code_simp
  then have o1: "getAccessToken_org example_config False ?w = (Inr (Some ''C''), ?a1)"
    by (simp add: prod_eq_iff)
  have "fst (fetch (Authorized (Some ''C'') (IdentityDelete ''i'')) ?a1) = Inr \<lparr>status = 401, retry_after = None, body = ''''\<rparr>" by code_simp
  then have o2: "fetch (Authorized (Some ''C'') (IdentityDelete ''i'')) ?a1 = (Inr \<lparr>status = 401, retry_after = None, body = ''''\<rparr>, ?a2)"
    by (simp add: prod_eq_iff)
  have o3: "status \<lparr>status = 401, retry_after = None, body = ''''\<rparr> = 401" by simp
  have "fst (getAccessToken_org example_config True (log_line Unauthorized401 ?a2)) = Inr (Some ''T'')" by code_simp
  then have o4: "getAccessToken_org example_config True (log_line Unauthorized401 ?a2) = (Inr (Some ''T''), ?a3)"
    by (simp add: prod_eq_iff)
  have "fst (getAccessToken_org example_config False ?a3) = Inr (Some ''T'')" by code_simp
  then have o5: "getAccessToken_org example_config False ?a3 = (Inr (Some ''T''), ?a4)"
    by (simp add: prod_eq_iff)
  have "fst (fetch (Authorized (Some ''T'') (IdentityDelete ''i'')) ?a4) = Inr \<lparr>status = 401, retry_after = None, body = ''''\<rparr>" by code_simp
  then have o6: "fetch (Authorized (Some ''T'') (IdentityDelete ''i'')) ?a4 = (Inr \<lparr>status = 401, retry_after = None, body = ''''\<rparr>, ?a5)"
    by (simp add: prod_eq_iff)
  have "fst (getAccessToken_all example_config False ?w) = Inr (Some ''C'')" by code_simp
  then have g1: "getAccessToken_all example_config False ?w = (Inr (Some ''C''), ?b1)"
    by (simp add: prod_eq_iff)
  have "fst (fetch (Authorized (Some ''C'') (IdentityDelete ''i'')) ?b1) = Inr \<lparr>status = 401, retry_after = None, body = ''''\<rparr>" by code_simp
  then have g2: "fetch (Authorized (Some ''C'') (IdentityDelete ''i'')) ?b1 = (Inr \<lparr>status = 401, retry_after = None, body = ''''\<rparr>, ?b2)"
    by (simp add: prod_eq_iff)
  have g3: "status \<lparr>status = 401, retry_after = None, body = ''''\<rparr> = 401" by simp
  have "fst (getAccessToken_all example_config True (log_line Unauthorized401 ?b2)) = Inr (Some ''T'')" by code_simp
  then have g4: "getAccessToken_all example_config True (log_line Unauthorized401 ?b2) = (Inr (Some ''T''), ?b3)"
    by (simp add: prod_eq_iff)
  have "fst (getAccessToken_all example_config False ?b3) = Inr (Some ''T'')" by code_simp
  then have g5: "getAccessToken_all example_config False ?b3 = (Inr (Some ''T''), ?b4)"
    by (simp add: prod_eq_iff)
  have "fst (fetch (Authorized (Some ''T'') (IdentityDelete ''i'')) ?b4) = Inr \<lparr>status = 401, retry_after = None, body = ''''\<rparr>" by code_simp
  then have g6: "fetch (Authorized (Some ''T'') (IdentityDelete ''i'')) ?b4 = (Inr \<lparr>status = 401, retry_after = None, body = ''''\<rparr>, ?b5)"
    by (simp add: prod_eq_iff)
  have e0: "(1::nat) \<le> 1" by simp
  note t1 = auth_retry_policy [where cfg = example_config and w = ?w and tok = "Some ''C''"
      and ?w1.0 = ?a1 and ep = "IdentityDelete ''i''" and resp = "\<lparr>status = 401, retry_after = None, body = ''''\<rparr>" and ?w2.0 = ?a2
      and tok' = "Some ''T''" and ?w3.0 = ?a3 and attempt = 6, THEN conjunct1, THEN mp,
      OF conjI [OF o1 conjI [OF o2 conjI [OF o3 o4]]]]
  note t2 = auth_retry_policy [where cfg = example_config and w = ?a3 and tok = "Some ''T''"
      and ?w1.0 = ?a4 and ep = "IdentityDelete ''i''" and resp = "\<lparr>status = 401, retry_after = None, body = ''''\<rparr>" and ?w2.0 = ?a5
      and attempt = 6, THEN conjunct2, THEN conjunct1, THEN mp, OF conjI [OF o5 conjI [OF o6 o3]]]
  note t4 = auth_retry_policy [where cfg = example_config and w = ?w and tok = "Some ''C''"
      and ?w1.0 = ?b1 and ep = "IdentityDelete ''i''" and resp = "\<lparr>status = 401, retry_after = None, body = ''''\<rparr>" and ?w2.0 = ?b2
      and tok' = "Some ''T''" and ?w3.0 = ?b3,
      THEN conjunct2, THEN conjunct2, THEN conjunct2, THEN conjunct1, THEN mp,
      OF conjI [OF g1 conjI [OF g2 conjI [OF g3 g4]]]]
  note t5 = auth_retry_policy [where cfg = example_config and w = ?b3 and tok = "Some ''T''"
      and ?w1.0 = ?b4 and ep = "IdentityDelete ''i''" and resp = "\<lparr>status = 401, retry_after = None, body = ''''\<rparr>" and ?w2.0 = ?b5
      and attempt = 1,
      THEN conjunct2, THEN conjunct2, THEN conjunct2, THEN conjunct2, THEN mp,
      OF conjI [OF g5 conjI [OF g6 conjI [OF g3 e0]]]]
  have x: "sent (snd (requestWithRetry_org example_config (IdentityDelete ''i'') 6 False ?w))
        = [Authorized (Some ''C'') (IdentityDelete ''i''), TokenExchange ''id'' ''secret'' ''aud'',
           Authorized (Some ''T'') (IdentityDelete ''i'')]"
    by code_simp
  from o1 o2 o3 o4 o5 o6 g1 g2 g3 g4 g5 g6 e0 t1 t2 t4 t5 x show ?thesis
    unfolding Let_def by (intro conjI) ((elim conjE)?, assumption)+
qed








end
